theory Spec2Isabelle
  imports Complex_Main
begin

section \<open>Python values: exceptions, floats and pandas tables\<close>

text \<open>
  The exceptions the two modules can raise. \<open>AssertionError\<close> comes from the
  \<^verbatim>\<open>assert\<close> statements, \<open>KeyError\<close> from a dictionary, Series or DataFrame lookup,
  \<open>ValueError\<close> from \<^verbatim>\<open>max([])\<close>, \<open>PulpError\<close> from adding a constraint under a
  name that is already taken, \<open>PulpSolverError\<close> from the external solver, and
  \<open>ModelHasNotSolved\<close> is \<^verbatim>\<open>Exception("Model has not solved")\<close>.
\<close>

datatype error =
  AssertionError | KeyError | ValueError | PulpError | PulpSolverError | ModelHasNotSolved

definition bind_error :: "error + 'a \<Rightarrow> ('a \<Rightarrow> error + 'b) \<Rightarrow> error + 'b" where
  "bind_error r f = (case r of Inl e \<Rightarrow> Inl e | Inr x \<Rightarrow> f x)"

text \<open>
  A cell of a pandas float column: a finite float, idealised as a real number, or the
  missing value NaN (\<open>None\<close>). Arithmetic propagates NaN and every comparison with NaN is
  false, as in IEEE arithmetic. Rounding is not modelled.
\<close>

type_synonym float64 = "real option"

fun fadd :: "float64 \<Rightarrow> float64 \<Rightarrow> float64" where
  "fadd (Some x) (Some y) = Some (x + y)"
| "fadd _ _ = None"

fun fsub :: "float64 \<Rightarrow> float64 \<Rightarrow> float64" where
  "fsub (Some x) (Some y) = Some (x - y)"
| "fsub _ _ = None"

fun fmul :: "float64 \<Rightarrow> float64 \<Rightarrow> float64" where
  "fmul (Some x) (Some y) = Some (x * y)"
| "fmul _ _ = None"

fun flt :: "float64 \<Rightarrow> float64 \<Rightarrow> bool" where
  "flt (Some x) (Some y) = (x < y)"
| "flt _ _ = False"

fun fge :: "float64 \<Rightarrow> float64 \<Rightarrow> bool" where
  "fge (Some x) (Some y) = (x \<ge> y)"
| "fge _ _ = False"

text \<open>
  A pandas Series of floats over the default index \<open>0, 1, ..., n - 1\<close> is the list of
  its cells. \<^verbatim>\<open>s[t]\<close> looks the label \<open>t\<close> up and raises KeyError when the index has no
  such label (a negative label too: the lookup is by label, not by position).
\<close>

type_synonym series = "float64 list"

definition series_getitem :: "series \<Rightarrow> int \<Rightarrow> error + float64" where
  "series_getitem s t =
     (if 0 \<le> t \<and> t < int (length s) then Inr (s ! nat t) else Inl KeyError)"

text \<open>\<^verbatim>\<open>s * c\<close> and \<^verbatim>\<open>c * s\<close> for a float \<open>c\<close>: cell by cell.\<close>

definition series_mul :: "series \<Rightarrow> real \<Rightarrow> series" where
  "series_mul s c = map (\<lambda>x. fmul x (Some c)) s"

definition rmul_series :: "real \<Rightarrow> series \<Rightarrow> series" where
  "rmul_series c s = map (\<lambda>x. fmul (Some c) x) s"

text \<open>
  \<^verbatim>\<open>s.mean()\<close> skips missing values (\<^verbatim>\<open>skipna=True\<close> is the default) and is NaN
  when no value is left; \<^verbatim>\<open>s.isna().sum()\<close> counts the missing values.
\<close>

definition dropna :: "series \<Rightarrow> real list" where
  "dropna s = concat (map (\<lambda>x. case x of None \<Rightarrow> [] | Some v \<Rightarrow> [v]) s)"

definition series_mean :: "series \<Rightarrow> float64" where
  "series_mean s =
     (if dropna s = [] then None else Some (sum_list (dropna s) / real (length (dropna s))))"

definition series_isna_sum :: "series \<Rightarrow> nat" where
  "series_isna_sum s = length (filter (\<lambda>x. x = None) s)"

text \<open>
  A DataFrame is the list of its columns in order, each a label and a Series; the row
  index is the default one. \<^verbatim>\<open>df[name]\<close> raises KeyError for a missing column;
  \<^verbatim>\<open>df[name] = s\<close> replaces the column of that label or appends a new one.
  A cell that a column does not have reads as NaN, as pandas aligns on the index.
\<close>

type_synonym dataframe = "(string \<times> series) list"

definition df_getitem :: "dataframe \<Rightarrow> string \<Rightarrow> error + series" where
  "df_getitem df name = (case map_of df name of None \<Rightarrow> Inl KeyError | Some s \<Rightarrow> Inr s)"

fun df_setitem :: "string \<Rightarrow> series \<Rightarrow> dataframe \<Rightarrow> dataframe" where
  "df_setitem name s [] = [(name, s)]"
| "df_setitem name s ((n, c) # df) =
     (if n = name then (n, s) # df else (n, c) # df_setitem name s df)"

definition nrows :: "dataframe \<Rightarrow> nat" where
  "nrows df = (case df of [] \<Rightarrow> 0 | (n, c) # _ \<Rightarrow> length c)"

definition cell_at :: "series \<Rightarrow> nat \<Rightarrow> float64" where
  "cell_at s i = (if i < length s then s ! i else None)"

definition nan_to_zero :: "float64 \<Rightarrow> real" where
  "nan_to_zero x = (case x of None \<Rightarrow> 0 | Some v \<Rightarrow> v)"

text \<open>
  \<^verbatim>\<open>df.sum(axis=1)\<close>: the sum of every row over the columns, missing values skipped
  (so a row of missing values sums to 0); \<^verbatim>\<open>df.isna().sum().sum()\<close>: the number of
  missing cells of the table.
\<close>

definition row_sum :: "dataframe \<Rightarrow> nat \<Rightarrow> float64" where
  "row_sum df i = Some (sum_list (map (\<lambda>col. nan_to_zero (cell_at (snd col) i)) df))"

definition df_sum_axis1 :: "dataframe \<Rightarrow> series" where
  "df_sum_axis1 df = map (row_sum df) [0..<nrows df]"

definition df_isna_sum_sum :: "dataframe \<Rightarrow> nat" where
  "df_isna_sum_sum df = sum_list (map (\<lambda>col. series_isna_sum (snd col)) df)"

section \<open>Renewables, Load and Storage\<close>

text \<open>
  \<^verbatim>\<open>capacities\<close> is a Python dictionary, read in insertion order by \<^verbatim>\<open>.items()\<close>:
  an association list whose keys are distinct.
\<close>

fun generation_loop :: "(string \<times> real) list \<Rightarrow> dataframe \<Rightarrow> dataframe \<Rightarrow> error + dataframe" where
  "generation_loop [] profiles generation = Inr generation"
| "generation_loop ((name, capacity) # rest) profiles generation =
     (case df_getitem profiles name of
        Inl e \<Rightarrow> Inl e
      | Inr column \<Rightarrow>
          generation_loop rest profiles (df_setitem name (series_mul column capacity) generation))"

definition calculate_generation ::
    "string list \<Rightarrow> (string \<times> real) list \<Rightarrow> dataframe \<Rightarrow> error + dataframe" where
  "calculate_generation names capacities profiles =
     (if set names \<noteq> set (map fst capacities) then Inl AssertionError
      else if ''Total'' \<in> set names then Inl AssertionError
      else bind_error (generation_loop capacities profiles [])
             (\<lambda>generation. Inr (df_setitem ''Total'' (df_sum_axis1 generation) generation)))"

record Renewables =
  names :: "string list"
  capacities :: "(string \<times> real) list"
  profiles :: dataframe
  generation :: dataframe

definition Renewables_init ::
    "string list \<Rightarrow> (string \<times> real) list \<Rightarrow> dataframe \<Rightarrow> error + Renewables" where
  "Renewables_init ns cs ps =
     bind_error (calculate_generation ns cs ps)
       (\<lambda>g. Inr \<lparr>names = ns, capacities = cs, profiles = ps, generation = g\<rparr>)"

record Load =
  capacity :: real
  profile :: series
  load :: series

definition Load_init :: "real \<Rightarrow> series \<Rightarrow> Load" where
  "Load_init c p = \<lparr>capacity = c, profile = p, load = rmul_series c p\<rparr>"

record Storage =
  efficiency :: real
  minimum_duration :: real
  capex_power :: real
  capex_capacity :: real

text \<open>\<open>start_date\<close> is a point in time, here in microseconds since the epoch.\<close>

record ScenarioInputs =
  name :: string
  start_date :: int
  time_index :: "int list"
  renewables :: Renewables
  load :: Load
  storage :: Storage

section \<open>PuLP: variables, affine expressions, constraints and the problem\<close>

text \<open>
  The decision variables, by name: \<^verbatim>\<open>capacity\<close>, \<^verbatim>\<open>power\<close>, and the three families
  \<^verbatim>\<open>storagelevel_t\<close>, \<^verbatim>\<open>charge_t\<close>, \<^verbatim>\<open>discharge_t\<close> that \<^verbatim>\<open>LpVariable.dicts\<close> makes
  for the indices \<open>t\<close>. Every one is created with \<^verbatim>\<open>lowBound=0\<close> and no upper bound.
\<close>

datatype LpVariable =
  Var_capacity | Var_power | Var_storagelevel int | Var_charge int | Var_discharge int

definition lowBound :: "LpVariable \<Rightarrow> real option" where
  "lowBound v = Some 0"

definition upBound :: "LpVariable \<Rightarrow> real option" where
  "upBound v = None"

definition LpVariable_dicts :: "(int \<Rightarrow> LpVariable) \<Rightarrow> int list \<Rightarrow> (int \<rightharpoonup> LpVariable)" where
  "LpVariable_dicts family indices = map_of (map (\<lambda>i. (i, family i)) indices)"

definition dict_getitem :: "(int \<rightharpoonup> 'a) \<Rightarrow> int \<Rightarrow> error + 'a" where
  "dict_getitem d k = (case d k of None \<Rightarrow> Inl KeyError | Some v \<Rightarrow> Inr v)"

text \<open>
  \<^verbatim>\<open>LpAffineExpression\<close>: an ordered dictionary from variables to coefficients, and a
  constant. Adding a term to a variable that is already a key adds the coefficients
  (the key stays, also with coefficient 0). The coefficients are the finite floats of
  the storage parameters; the constant can carry a cell of an input table.
\<close>

record LpAffineExpression =
  terms :: "(LpVariable \<times> real) list"
  const_term :: float64

fun addterm :: "LpVariable \<Rightarrow> real \<Rightarrow> (LpVariable \<times> real) list \<Rightarrow> (LpVariable \<times> real) list" where
  "addterm v x [] = [(v, x)]"
| "addterm v x ((w, y) # ts) = (if w = v then (w, y + x) # ts else (w, y) # addterm v x ts)"

definition expr_var :: "LpVariable \<Rightarrow> LpAffineExpression" where
  "expr_var v = \<lparr>terms = [(v, 1)], const_term = Some 0\<rparr>"

definition expr_add :: "LpAffineExpression \<Rightarrow> LpAffineExpression \<Rightarrow> LpAffineExpression" where
  "expr_add e1 e2 =
     \<lparr>terms = fold (\<lambda>vx. addterm (fst vx) (snd vx)) (terms e2) (terms e1),
      const_term = fadd (const_term e1) (const_term e2)\<rparr>"

definition expr_sub :: "LpAffineExpression \<Rightarrow> LpAffineExpression \<Rightarrow> LpAffineExpression" where
  "expr_sub e1 e2 =
     \<lparr>terms = fold (\<lambda>vx. addterm (fst vx) (- snd vx)) (terms e2) (terms e1),
      const_term = fsub (const_term e1) (const_term e2)\<rparr>"

definition expr_add_const :: "LpAffineExpression \<Rightarrow> float64 \<Rightarrow> LpAffineExpression" where
  "expr_add_const e c = \<lparr>terms = terms e, const_term = fadd (const_term e) c\<rparr>"

definition expr_sub_const :: "LpAffineExpression \<Rightarrow> float64 \<Rightarrow> LpAffineExpression" where
  "expr_sub_const e c = \<lparr>terms = terms e, const_term = fsub (const_term e) c\<rparr>"

text \<open>
  The product with a number: PuLP returns the empty expression when the number is 0,
  and scales every coefficient and the constant otherwise.
\<close>

definition expr_mul :: "LpAffineExpression \<Rightarrow> real \<Rightarrow> LpAffineExpression" where
  "expr_mul e c =
     (if c \<noteq> 0
      then \<lparr>terms = map (\<lambda>vx. (fst vx, c * snd vx)) (terms e),
            const_term = fmul (const_term e) (Some c)\<rparr>
      else \<lparr>terms = [], const_term = Some 0\<rparr>)"

text \<open>
  \<^verbatim>\<open>LpConstraint\<close>: an expression and a sense, read as \<open>expr \<le> 0\<close>, \<open>expr = 0\<close> or
  \<open>expr \<ge> 0\<close>. The comparison operators move everything to the left-hand side.
\<close>

datatype LpConstraintSense = LpConstraintLE | LpConstraintEQ | LpConstraintGE

record LpConstraint =
  expr :: LpAffineExpression
  sense :: LpConstraintSense

definition expr_le :: "LpAffineExpression \<Rightarrow> LpAffineExpression \<Rightarrow> LpConstraint" where
  "expr_le e1 e2 = \<lparr>expr = expr_sub e1 e2, sense = LpConstraintLE\<rparr>"

definition expr_eq :: "LpAffineExpression \<Rightarrow> LpAffineExpression \<Rightarrow> LpConstraint" where
  "expr_eq e1 e2 = \<lparr>expr = expr_sub e1 e2, sense = LpConstraintEQ\<rparr>"

definition expr_ge :: "LpAffineExpression \<Rightarrow> LpAffineExpression \<Rightarrow> LpConstraint" where
  "expr_ge e1 e2 = \<lparr>expr = expr_sub e1 e2, sense = LpConstraintGE\<rparr>"

definition expr_ge_const :: "LpAffineExpression \<Rightarrow> float64 \<Rightarrow> LpConstraint" where
  "expr_ge_const e c = \<lparr>expr = expr_sub_const e c, sense = LpConstraintGE\<rparr>"

text \<open>
  The value of an expression and the validity of a constraint under an assignment of
  numbers to the variables (\<^verbatim>\<open>LpAffineExpression.value\<close>, \<^verbatim>\<open>LpConstraint.valid\<close>).
\<close>

definition terms_value :: "(LpVariable \<Rightarrow> real) \<Rightarrow> (LpVariable \<times> real) list \<Rightarrow> real" where
  "terms_value a ts = sum_list (map (\<lambda>vx. snd vx * a (fst vx)) ts)"

definition expr_value :: "(LpVariable \<Rightarrow> real) \<Rightarrow> LpAffineExpression \<Rightarrow> float64" where
  "expr_value a e = fadd (Some (terms_value a (terms e))) (const_term e)"

definition constraint_valid :: "(LpVariable \<Rightarrow> real) \<Rightarrow> LpConstraint \<Rightarrow> bool" where
  "constraint_valid a c =
     (case sense c of
        LpConstraintLE \<Rightarrow> fge (Some 0) (expr_value a (expr c))
      | LpConstraintEQ \<Rightarrow> expr_value a (expr c) = Some 0
      | LpConstraintGE \<Rightarrow> fge (expr_value a (expr c)) (Some 0))"

text \<open>
  A constraint name is a fixed text, with the time step where the source formats
  \<^verbatim>\<open>(t={t})\<close> into it. PuLP replaces the characters \<^verbatim>\<open>-+[] ->/\<close> of a name by
  underscores; on these names that is one-to-one, so the pair stands for the name.
\<close>

type_synonym label = "string \<times> int option"

text \<open>
  \<^verbatim>\<open>LpProblem\<close>: the objective, the ordered dictionary of constraints by name, the
  status of the last solve (\<open>0\<close> not solved, \<open>1\<close> optimal, \<open>-1\<close> infeasible, \<open>-2\<close>
  unbounded, \<open>-3\<close> undefined) and the values the solver gave the variables.
\<close>

record LpProblem =
  name :: string
  sense :: int
  objective :: "LpAffineExpression option"
  constraints :: "(label \<times> LpConstraint) list"
  status :: int
  varValue :: "LpVariable \<Rightarrow> real option"

definition LpMinimize :: int where
  "LpMinimize = 1"

definition LpStatusNotSolved :: int where
  "LpStatusNotSolved = 0"

definition LpStatusOptimal :: int where
  "LpStatusOptimal = 1"

definition LpProblem_init :: "string \<Rightarrow> int \<Rightarrow> LpProblem" where
  "LpProblem_init nm sns =
     \<lparr>name = nm, sense = sns, objective = None, constraints = [],
      status = LpStatusNotSolved, varValue = (\<lambda>v. None)\<rparr>"

text \<open>
  \<^verbatim>\<open>problem += expression\<close> sets the objective; \<^verbatim>\<open>problem += (constraint, name)\<close>
  stores the constraint under the name and raises PulpError when the name is taken.
\<close>

definition iadd_objective :: "LpProblem \<Rightarrow> LpAffineExpression \<Rightarrow> LpProblem" where
  "iadd_objective lp e = lp\<lparr>objective := Some e\<rparr>"

definition iadd_constraint :: "LpProblem \<Rightarrow> LpConstraint \<Rightarrow> label \<Rightarrow> error + LpProblem" where
  "iadd_constraint lp c n =
     (if n \<in> set (map fst (constraints lp)) then Inl PulpError
      else Inr (lp\<lparr>constraints := constraints lp @ [(n, c)]\<rparr>))"

text \<open>
  \<^verbatim>\<open>problem.variables()\<close>: the variables of the objective and of the constraints,
  each once. PuLP returns them sorted by name; their order plays no part below.
\<close>

definition variables :: "LpProblem \<Rightarrow> LpVariable list" where
  "variables lp =
     remdups ((case objective lp of None \<Rightarrow> [] | Some e \<Rightarrow> map fst (terms e)) @
              concat (map (\<lambda>nc. map fst (terms (expr (snd nc)))) (constraints lp)))"

section \<open>The scenario manager\<close>

record ModelVarsScalar =
  capacity :: LpVariable
  power :: LpVariable

record ModelVarsTimeDependent =
  level :: "int \<rightharpoonup> LpVariable"
  charge :: "int \<rightharpoonup> LpVariable"
  discharge :: "int \<rightharpoonup> LpVariable"

record ModelVars =
  scalar :: ModelVarsScalar
  time :: ModelVarsTimeDependent

record ScenarioManager =
  inputs :: ScenarioInputs
  name :: string
  solved_status :: bool
  lpmodel :: LpProblem
  vars :: ModelVars

text \<open>
  A method that changes the object either returns or raises, and in both cases leaves
  the object in some state: what it had changed before the exception stays changed.
\<close>

datatype 's outcome = Return 's | Raise error 's

fun state_of :: "'s outcome \<Rightarrow> 's" where
  "state_of (Return s) = s"
| "state_of (Raise e s) = s"

definition and_then :: "'s outcome \<Rightarrow> ('s \<Rightarrow> 's outcome) \<Rightarrow> 's outcome" where
  "and_then r f = (case r of Return s \<Rightarrow> f s | Raise e s \<Rightarrow> Raise e s)"

definition verify_inputs :: "ScenarioManager \<Rightarrow> error + unit" where
  "verify_inputs self =
     bind_error (df_getitem (generation (renewables (inputs self))) ''Total'') (\<lambda>total.
       if \<not> flt (series_mean (Load.load (ScenarioInputs.load (inputs self)))) (series_mean total)
       then Inl AssertionError
       else if df_isna_sum_sum (generation (renewables (inputs self))) \<noteq> 0
       then Inl AssertionError
       else if series_isna_sum (Load.load (ScenarioInputs.load (inputs self))) \<noteq> 0
       then Inl AssertionError
       else Inr ())"

definition setup_linear_problem :: "ScenarioManager \<Rightarrow> ScenarioManager" where
  "setup_linear_problem self =
     self\<lparr>lpmodel := LpProblem_init (ScenarioInputs.name (inputs self)) LpMinimize\<rparr>"

definition define_endogenous_variables :: "ScenarioManager \<Rightarrow> ScenarioManager" where
  "define_endogenous_variables self =
     self\<lparr>vars :=
       \<lparr>scalar = \<lparr>capacity = Var_capacity, power = Var_power\<rparr>,
        time = \<lparr>level = LpVariable_dicts Var_storagelevel (time_index (inputs self)),
                charge = LpVariable_dicts Var_charge (time_index (inputs self)),
                discharge = LpVariable_dicts Var_discharge (time_index (inputs self))\<rparr>\<rparr>\<rparr>"

definition obj_func_capex_total :: "ScenarioManager \<Rightarrow> LpAffineExpression" where
  "obj_func_capex_total self =
     expr_add
       (expr_mul (expr_var (ModelVarsScalar.capacity (scalar (vars self))))
                 (capex_capacity (storage (inputs self))))
       (expr_mul (expr_var (power (scalar (vars self))))
                 (capex_power (storage (inputs self))))"

definition define_objective_function :: "ScenarioManager \<Rightarrow> ScenarioManager" where
  "define_objective_function self =
     self\<lparr>lpmodel := iadd_objective (lpmodel self) (obj_func_capex_total self)\<rparr>"

subsection \<open>The constraints\<close>

definition lbl_duration :: string where
  "lbl_duration = ''duration is greater than input minimum''"

definition lbl_start :: string where
  "lbl_start = ''storage level at start is determined by the end''"

definition lbl_storage_level :: string where
  "lbl_storage_level = ''storage level is determined by charge and discharge, and efficiency''"

definition lbl_available :: string where
  "lbl_available = ''cannot dispatch more than available energy''"

definition lbl_charge :: string where
  "lbl_charge = ''storage charge is limited by power rating''"

definition lbl_discharge :: string where
  "lbl_discharge = ''storage discharge is limited by power rating''"

definition lbl_level :: string where
  "lbl_level = ''storage level cannot be higher then capacity''"

definition lbl_load :: string where
  "lbl_load = ''load is supplied''"

text \<open>\<^verbatim>\<open>max(xs)\<close> raises ValueError on the empty list.\<close>

fun py_max :: "int list \<Rightarrow> error + int" where
  "py_max [] = Inl ValueError"
| "py_max (x # xs) = Inr (fold max xs x)"

text \<open>
  The constraint expressions of \<^verbatim>\<open>define_constraints\<close>, each with the lookups it makes
  in the order Python evaluates them.
\<close>

definition duration_constraint :: "ScenarioManager \<Rightarrow> error + LpConstraint" where
  "duration_constraint self =
     Inr (expr_ge (expr_var (ModelVarsScalar.capacity (scalar (vars self))))
                  (expr_mul (expr_var (power (scalar (vars self))))
                            (minimum_duration (storage (inputs self)))))"

definition start_of_year_constraint :: "ScenarioManager \<Rightarrow> error + LpConstraint" where
  "start_of_year_constraint self =
     bind_error (py_max (time_index (inputs self))) (\<lambda>t_max.
     bind_error (dict_getitem (level (time (vars self))) 0) (\<lambda>l0.
     bind_error (dict_getitem (level (time (vars self))) t_max) (\<lambda>lm.
     bind_error (dict_getitem (discharge (time (vars self))) t_max) (\<lambda>dm.
     bind_error (dict_getitem (charge (time (vars self))) t_max) (\<lambda>cm.
       Inr (expr_eq (expr_var l0)
              (expr_add (expr_sub (expr_var lm) (expr_var dm))
                        (expr_mul (expr_var cm) (efficiency (storage (inputs self)))))))))))"

definition storage_level_constraint :: "ScenarioManager \<Rightarrow> int \<Rightarrow> error + LpConstraint" where
  "storage_level_constraint self t =
     bind_error (dict_getitem (level (time (vars self))) (t + 1)) (\<lambda>l1.
     bind_error (dict_getitem (level (time (vars self))) t) (\<lambda>l.
     bind_error (dict_getitem (discharge (time (vars self))) t) (\<lambda>d.
     bind_error (dict_getitem (charge (time (vars self))) t) (\<lambda>c.
       Inr (expr_eq (expr_var l1)
              (expr_add (expr_sub (expr_var l) (expr_var d))
                        (expr_mul (expr_var c) (efficiency (storage (inputs self))))))))))"

definition available_energy_constraint :: "ScenarioManager \<Rightarrow> int \<Rightarrow> error + LpConstraint" where
  "available_energy_constraint self t =
     bind_error (dict_getitem (level (time (vars self))) t) (\<lambda>l.
     bind_error (dict_getitem (discharge (time (vars self))) t) (\<lambda>d.
       Inr (expr_ge (expr_var l) (expr_var d))))"

definition charge_constraint :: "ScenarioManager \<Rightarrow> int \<Rightarrow> error + LpConstraint" where
  "charge_constraint self t =
     bind_error (dict_getitem (charge (time (vars self))) t) (\<lambda>c.
       Inr (expr_le (expr_var c) (expr_var (power (scalar (vars self))))))"

definition discharge_constraint :: "ScenarioManager \<Rightarrow> int \<Rightarrow> error + LpConstraint" where
  "discharge_constraint self t =
     bind_error (dict_getitem (discharge (time (vars self))) t) (\<lambda>d.
       Inr (expr_le (expr_var d) (expr_var (power (scalar (vars self))))))"

definition level_constraint :: "ScenarioManager \<Rightarrow> int \<Rightarrow> error + LpConstraint" where
  "level_constraint self t =
     bind_error (dict_getitem (level (time (vars self))) t) (\<lambda>l.
       Inr (expr_le (expr_var l) (expr_var (ModelVarsScalar.capacity (scalar (vars self))))))"

definition load_constraint :: "ScenarioManager \<Rightarrow> int \<Rightarrow> error + LpConstraint" where
  "load_constraint self t =
     bind_error (df_getitem (generation (renewables (inputs self))) ''Total'') (\<lambda>total.
     bind_error (series_getitem total t) (\<lambda>g.
     bind_error (dict_getitem (discharge (time (vars self))) t) (\<lambda>d.
     bind_error (dict_getitem (charge (time (vars self))) t) (\<lambda>c.
     bind_error (series_getitem (Load.load (ScenarioInputs.load (inputs self))) t) (\<lambda>l.
       Inr (expr_ge_const
              (expr_sub (expr_add_const (expr_var d) g) (expr_var c)) l))))))"

text \<open>
  The statement \<^verbatim>\<open>self.lpmodel += (constraint, name)\<close>: the constraint expression is
  evaluated first and may raise, then the problem takes the constraint or raises.
\<close>

definition lpmodel_iadd ::
    "(ScenarioManager \<Rightarrow> error + LpConstraint) \<Rightarrow> label \<Rightarrow> ScenarioManager \<Rightarrow> ScenarioManager outcome" where
  "lpmodel_iadd c n self =
     (case c self of
        Inl e \<Rightarrow> Raise e self
      | Inr c' \<Rightarrow>
          (case iadd_constraint (lpmodel self) c' n of
             Inl e \<Rightarrow> Raise e self
           | Inr lp \<Rightarrow> Return (self\<lparr>lpmodel := lp\<rparr>)))"

text \<open>The loop over \<^verbatim>\<open>time_index[:-1]\<close> and the loop over \<^verbatim>\<open>time_index\<close>.\<close>

fun storage_level_loop :: "int list \<Rightarrow> ScenarioManager \<Rightarrow> ScenarioManager outcome" where
  "storage_level_loop [] self = Return self"
| "storage_level_loop (t # ts) self =
     and_then
       (and_then
          (lpmodel_iadd (\<lambda>s. storage_level_constraint s t) (lbl_storage_level, Some t) self)
          (lpmodel_iadd (\<lambda>s. available_energy_constraint s t) (lbl_available, Some t)))
       (storage_level_loop ts)"

fun limits_loop :: "int list \<Rightarrow> ScenarioManager \<Rightarrow> ScenarioManager outcome" where
  "limits_loop [] self = Return self"
| "limits_loop (t # ts) self =
     and_then
       (and_then
          (and_then
             (and_then
                (lpmodel_iadd (\<lambda>s. charge_constraint s t) (lbl_charge, Some t) self)
                (lpmodel_iadd (\<lambda>s. discharge_constraint s t) (lbl_discharge, Some t)))
             (lpmodel_iadd (\<lambda>s. level_constraint s t) (lbl_level, Some t)))
          (lpmodel_iadd (\<lambda>s. load_constraint s t) (lbl_load, Some t)))
       (limits_loop ts)"

definition define_constraints :: "ScenarioManager \<Rightarrow> ScenarioManager outcome" where
  "define_constraints self =
     and_then
       (and_then
          (and_then
             (lpmodel_iadd duration_constraint (lbl_duration, None) self)
             (lpmodel_iadd start_of_year_constraint (lbl_start, None)))
          (\<lambda>s. storage_level_loop (butlast (time_index (inputs s))) s))
       (\<lambda>s. limits_loop (time_index (inputs s)) s)"

text \<open>
  The constructor. The attributes \<^verbatim>\<open>lpmodel\<close> and \<^verbatim>\<open>vars\<close> do not exist before
  \<^verbatim>\<open>setup_linear_problem\<close> and \<^verbatim>\<open>define_endogenous_variables\<close> assign them; until
  then the record holds an empty problem and empty dictionaries in their place. When
  a step raises, no object is constructed.
\<close>

definition new_object :: "ScenarioInputs \<Rightarrow> ScenarioManager" where
  "new_object inp =
     \<lparr>inputs = inp, name = ScenarioInputs.name inp, solved_status = False,
      lpmodel = LpProblem_init [] LpMinimize,
      vars = \<lparr>scalar = \<lparr>capacity = Var_capacity, power = Var_power\<rparr>,
              time = \<lparr>level = Map.empty, charge = Map.empty, discharge = Map.empty\<rparr>\<rparr>\<rparr>"

definition ScenarioManager_init :: "ScenarioInputs \<Rightarrow> error + ScenarioManager" where
  "ScenarioManager_init inp =
     (case define_constraints
             (define_objective_function
                (define_endogenous_variables
                   (setup_linear_problem (new_object inp)))) of
        Return self \<Rightarrow> Inr self
      | Raise e self \<Rightarrow> Inl e)"

subsection \<open>Solving\<close>

text \<open>
  The external solver, with the options \<^verbatim>\<open>**kwargs\<close> passed through to it: given the
  problem it raises, or reports a status and a value for every variable, which
  \<^verbatim>\<open>LpProblem.solve\<close> stores in the problem.
\<close>

type_synonym solver = "LpProblem \<Rightarrow> error + int \<times> (LpVariable \<Rightarrow> real option)"

definition LpProblem_solve :: "solver \<Rightarrow> LpProblem \<Rightarrow> error + LpProblem" where
  "LpProblem_solve slv lp =
     bind_error (slv lp) (\<lambda>r. Inr (lp\<lparr>status := fst r, varValue := snd r\<rparr>))"

definition solve :: "solver \<Rightarrow> ScenarioManager \<Rightarrow> ScenarioManager outcome" where
  "solve slv self =
     (case LpProblem_solve slv (lpmodel self) of
        Inl e \<Rightarrow> Raise e self
      | Inr lp \<Rightarrow>
          Return (if status lp = 1 then self\<lparr>lpmodel := lp, solved_status := True\<rparr>
                  else self\<lparr>lpmodel := lp\<rparr>))"

definition verify_solve :: "ScenarioManager \<Rightarrow> error + unit" where
  "verify_solve self =
     (if status (lpmodel self) \<noteq> 1 then Inl ModelHasNotSolved else Inr ())"

text \<open>
  The methods a caller can invoke on a constructed manager, and a run of calls in
  which the caller catches every exception and goes on with the object as it is.
\<close>

datatype operation =
  Verify_inputs | Setup_linear_problem | Define_endogenous_variables
  | Define_objective_function | Define_constraints | Solve solver | Verify_solve

definition raising :: "error + unit \<Rightarrow> 's \<Rightarrow> 's outcome" where
  "raising r s = (case r of Inl e \<Rightarrow> Raise e s | Inr u \<Rightarrow> Return s)"

fun call :: "operation \<Rightarrow> ScenarioManager \<Rightarrow> ScenarioManager outcome" where
  "call Verify_inputs self = raising (verify_inputs self) self"
| "call Setup_linear_problem self = Return (setup_linear_problem self)"
| "call Define_endogenous_variables self = Return (define_endogenous_variables self)"
| "call Define_objective_function self = Return (define_objective_function self)"
| "call Define_constraints self = define_constraints self"
| "call (Solve slv) self = solve slv self"
| "call Verify_solve self = raising (verify_solve self) self"

fun calls :: "operation list \<Rightarrow> ScenarioManager \<Rightarrow> ScenarioManager" where
  "calls [] self = self"
| "calls (m # ms) self = calls ms (state_of (call m self))"

section \<open>Reading the results\<close>

text \<open>
  A variable's name is its family, and for the time-dependent families the index that
  \<^verbatim>\<open>LpVariable.dicts\<close> joins to it with an underscore: \<^verbatim>\<open>name.split("_")\<close> gives the
  family first and the index last.
\<close>

fun family :: "LpVariable \<Rightarrow> string" where
  "family Var_capacity = ''capacity''"
| "family Var_power = ''power''"
| "family (Var_storagelevel t) = ''storagelevel''"
| "family (Var_charge t) = ''charge''"
| "family (Var_discharge t) = ''discharge''"

fun timestep :: "LpVariable \<Rightarrow> int option" where
  "timestep Var_capacity = None"
| "timestep Var_power = None"
| "timestep (Var_storagelevel t) = Some t"
| "timestep (Var_charge t) = Some t"
| "timestep (Var_discharge t) = Some t"

definition get_design_results :: "ScenarioManager \<Rightarrow> error + (string \<rightharpoonup> real option)" where
  "get_design_results scenario =
     (if \<not> solved_status scenario then Inl AssertionError
      else Inr (map_of (map (\<lambda>v. (family v, varValue (lpmodel scenario) v))
                 (filter (\<lambda>v. timestep v = None \<and> family v \<in> set [''capacity'', ''power''])
                    (variables (lpmodel scenario))))))"

text \<open>
  \<^verbatim>\<open>get_operational_batteryflow_results\<close>: the rows of the three time-dependent
  families, each with its time \<^verbatim>\<open>start_date + timestep\<close> hours (in microseconds), and
  the pivot of them: one row per time in ascending order, one column per family in
  alphabetical order, a missing cell where the variable has no value.
\<close>

definition time_results :: "ScenarioManager \<Rightarrow> (string \<times> int \<times> real option) list" where
  "time_results scenario =
     concat (map (\<lambda>v. case timestep v of
                       None \<Rightarrow> []
                     | Some t \<Rightarrow>
                         if family v \<in> set [''storagelevel'', ''charge'', ''discharge'']
                         then [(family v, start_date (inputs scenario) + 3600000000 * t,
                                varValue (lpmodel scenario) v)]
                         else [])
               (variables (lpmodel scenario)))"

definition pivot ::
    "(string \<times> int \<times> real option) list \<Rightarrow> (int \<times> (string \<times> real option) list) list" where
  "pivot rows =
     map (\<lambda>tm. (tm, map (\<lambda>p. (p, case map_of (map (\<lambda>r. ((fst r, fst (snd r)), snd (snd r))) rows) (p, tm) of
                                    None \<Rightarrow> None | Some x \<Rightarrow> x))
                   (filter (\<lambda>p. p \<in> set (map fst rows)) [''charge'', ''discharge'', ''storagelevel''])))
       (sort (remdups (map (\<lambda>r. fst (snd r)) rows)))"

definition get_operational_batteryflow_results ::
    "ScenarioManager \<Rightarrow> error + (int \<times> (string \<times> real option) list) list" where
  "get_operational_batteryflow_results scenario = Inr (pivot (time_results scenario))"

section \<open>Example scenarios\<close>

text \<open>
  One technology \<^verbatim>\<open>Solar\<close> of capacity 100 with a constant profile 1.0 over three
  steps, a load of capacity 50 with profile 0.5, and a storage of efficiency 0.9,
  minimum duration 2 and unit costs; over the time index \<open>[0, 1, 2]\<close> and over \<open>[0]\<close>.
\<close>

definition ex_profiles :: dataframe where
  "ex_profiles = [(''Solar'', [Some 1, Some 1, Some 1])]"

definition ex_renewables :: Renewables where
  "ex_renewables =
     \<lparr>names = [''Solar''], capacities = [(''Solar'', 100)], profiles = ex_profiles,
      generation = [(''Solar'', [Some 100, Some 100, Some 100]),
                    (''Total'', [Some 100, Some 100, Some 100])]\<rparr>"

definition ex_storage :: Storage where
  "ex_storage = \<lparr>efficiency = 9 / 10, minimum_duration = 2, capex_power = 1, capex_capacity = 1\<rparr>"

definition ex_inputs :: "int list \<Rightarrow> ScenarioInputs" where
  "ex_inputs ti =
     \<lparr>ScenarioInputs.name = ''example'', start_date = 0, time_index = ti,
      renewables = ex_renewables,
      ScenarioInputs.load = Load_init 50 [Some (1 / 2), Some (1 / 2), Some (1 / 2)], storage = ex_storage\<rparr>"

text \<open>A solver that finds the problem infeasible, and one that reports an optimum.\<close>

definition infeasible_solver :: solver where
  "infeasible_solver lp = Inr (- 1, (\<lambda>v. None))"

definition optimal_solver :: solver where
  "optimal_solver lp = Inr (1, (\<lambda>v. Some 0))"

text \<open>The manager the constructor returns for an example scenario.\<close>

definition ex_manager :: "int list \<Rightarrow> ScenarioManager" where
  "ex_manager ti = projr (ScenarioManager_init (ex_inputs ti))"

section \<open>Auxiliary definitions for the proofs\<close>

text \<open>
  The object with further constraints appended to its problem, the constraints one
  pass of each loop appends, all the constraints \<^verbatim>\<open>define_constraints\<close> appends, and
  the object as the constructor has it when it reaches \<^verbatim>\<open>define_constraints\<close>.
\<close>

definition added :: "ScenarioManager \<Rightarrow> (label \<times> LpConstraint) list \<Rightarrow> ScenarioManager" where
  "added self cs = self\<lparr>lpmodel := (lpmodel self)\<lparr>constraints := constraints (lpmodel self) @ cs\<rparr>\<rparr>"

definition storage_level_entries :: "ScenarioManager \<Rightarrow> int \<Rightarrow> (label \<times> LpConstraint) list" where
  "storage_level_entries self t =
     [((lbl_storage_level, Some t), projr (storage_level_constraint self t)),
      ((lbl_available, Some t), projr (available_energy_constraint self t))]"

definition limits_entries :: "ScenarioManager \<Rightarrow> int \<Rightarrow> (label \<times> LpConstraint) list" where
  "limits_entries self t =
     [((lbl_charge, Some t), projr (charge_constraint self t)),
      ((lbl_discharge, Some t), projr (discharge_constraint self t)),
      ((lbl_level, Some t), projr (level_constraint self t)),
      ((lbl_load, Some t), projr (load_constraint self t))]"

definition all_entries :: "ScenarioManager \<Rightarrow> (label \<times> LpConstraint) list" where
  "all_entries self =
     [((lbl_duration, None), projr (duration_constraint self)),
      ((lbl_start, None), projr (start_of_year_constraint self))] @
     concat (map (storage_level_entries self) (butlast (time_index (inputs self)))) @
     concat (map (limits_entries self) (time_index (inputs self)))"

definition prepared :: "ScenarioInputs \<Rightarrow> ScenarioManager" where
  "prepared inp =
     define_objective_function
       (define_endogenous_variables (setup_linear_problem (new_object inp)))"

section \<open>Properties\<close>

lemma bind_error_Inr: "bind_error r f = Inr y \<longleftrightarrow> (\<exists>x. r = Inr x \<and> f x = Inr y)"
  by (cases r) (simp_all add: bind_error_def)

subsection \<open>What a returning \<^verbatim>\<open>define_constraints\<close> has appended\<close>

lemma and_then_Return:
  "and_then r f = Return s' \<longleftrightarrow> (\<exists>s. r = Return s \<and> f s = Return s')"
  by (cases r) (simp_all add: and_then_def)

lemma added_simps:
  "inputs (added self cs) = inputs self"
  "vars (added self cs) = vars self"
  "solved_status (added self cs) = solved_status self"
  "ScenarioManager.name (added self cs) = ScenarioManager.name self"
  "constraints (lpmodel (added self cs)) = constraints (lpmodel self) @ cs"
  "objective (lpmodel (added self cs)) = objective (lpmodel self)"
  "status (lpmodel (added self cs)) = status (lpmodel self)"
  "varValue (lpmodel (added self cs)) = varValue (lpmodel self)"
  by (simp_all add: added_def)

lemma added_added: "added (added self cs) ds = added self (cs @ ds)"
  by (simp add: added_def)

lemma added_Nil: "added self [] = self"
  by (simp add: added_def)

lemma builders_added:
  "duration_constraint (added self cs) = duration_constraint self"
  "start_of_year_constraint (added self cs) = start_of_year_constraint self"
  "storage_level_constraint (added self cs) t = storage_level_constraint self t"
  "available_energy_constraint (added self cs) t = available_energy_constraint self t"
  "charge_constraint (added self cs) t = charge_constraint self t"
  "discharge_constraint (added self cs) t = discharge_constraint self t"
  "level_constraint (added self cs) t = level_constraint self t"
  "load_constraint (added self cs) t = load_constraint self t"
  by (simp_all add: duration_constraint_def start_of_year_constraint_def
      storage_level_constraint_def available_energy_constraint_def charge_constraint_def
      discharge_constraint_def level_constraint_def load_constraint_def added_simps)

lemma lpmodel_iadd_Return:
  "lpmodel_iadd c n self = Return self' \<longleftrightarrow>
     (\<exists>c'. c self = Inr c' \<and> n \<notin> set (map fst (constraints (lpmodel self))) \<and>
           self' = added self [(n, c')])"
  by (cases "c self") (auto simp: lpmodel_iadd_def iadd_constraint_def added_def)

lemma storage_level_loop_Return:
  "storage_level_loop ts self = Return self' \<Longrightarrow>
     self' = added self (concat (map (storage_level_entries self) ts)) \<and>
     (\<forall>t \<in> set ts. \<not> isl (storage_level_constraint self t) \<and>
                    \<not> isl (available_energy_constraint self t))"
proof (induction ts arbitrary: self)
  case Nil
  then show ?case by (simp add: added_Nil)
next
  case (Cons t ts)
  from Cons.prems obtain s1 s2 where
    s1: "lpmodel_iadd (\<lambda>s. storage_level_constraint s t) (lbl_storage_level, Some t) self = Return s1"
    and s2: "lpmodel_iadd (\<lambda>s. available_energy_constraint s t) (lbl_available, Some t) s1 = Return s2"
    and rest: "storage_level_loop ts s2 = Return self'"
    by (auto simp: and_then_Return)
  from s1 obtain c1 where c1: "storage_level_constraint self t = Inr c1"
    and e1: "s1 = added self [((lbl_storage_level, Some t), c1)]"
    by (auto simp: lpmodel_iadd_Return)
  from s2 obtain c2 where c2: "available_energy_constraint s1 t = Inr c2"
    and e2: "s2 = added s1 [((lbl_available, Some t), c2)]"
    by (auto simp: lpmodel_iadd_Return)
  have s2': "s2 = added self (storage_level_entries self t)"
    using c1 c2 e1 e2 by (simp add: storage_level_entries_def added_added builders_added)
  from Cons.IH[OF rest] show ?case
    using s2' c1 c2 e1 by (simp add: added_added builders_added storage_level_entries_def)
qed

lemma limits_loop_Return:
  "limits_loop ts self = Return self' \<Longrightarrow>
     self' = added self (concat (map (limits_entries self) ts)) \<and>
     (\<forall>t \<in> set ts. \<not> isl (charge_constraint self t) \<and> \<not> isl (discharge_constraint self t) \<and>
                    \<not> isl (level_constraint self t) \<and> \<not> isl (load_constraint self t))"
proof (induction ts arbitrary: self)
  case Nil
  then show ?case by (simp add: added_Nil)
next
  case (Cons t ts)
  from Cons.prems obtain s1 s2 s3 s4 where
    s1: "lpmodel_iadd (\<lambda>s. charge_constraint s t) (lbl_charge, Some t) self = Return s1"
    and s2: "lpmodel_iadd (\<lambda>s. discharge_constraint s t) (lbl_discharge, Some t) s1 = Return s2"
    and s3: "lpmodel_iadd (\<lambda>s. level_constraint s t) (lbl_level, Some t) s2 = Return s3"
    and s4: "lpmodel_iadd (\<lambda>s. load_constraint s t) (lbl_load, Some t) s3 = Return s4"
    and rest: "limits_loop ts s4 = Return self'"
    by (auto simp: and_then_Return)
  from s1 obtain c1 where c1: "charge_constraint self t = Inr c1"
    and e1: "s1 = added self [((lbl_charge, Some t), c1)]"
    by (auto simp: lpmodel_iadd_Return)
  from s2 obtain c2 where c2: "discharge_constraint s1 t = Inr c2"
    and e2: "s2 = added s1 [((lbl_discharge, Some t), c2)]"
    by (auto simp: lpmodel_iadd_Return)
  from s3 obtain c3 where c3: "level_constraint s2 t = Inr c3"
    and e3: "s3 = added s2 [((lbl_level, Some t), c3)]"
    by (auto simp: lpmodel_iadd_Return)
  from s4 obtain c4 where c4: "load_constraint s3 t = Inr c4"
    and e4: "s4 = added s3 [((lbl_load, Some t), c4)]"
    by (auto simp: lpmodel_iadd_Return)
  have s4': "s4 = added self (limits_entries self t)"
    using c1 c2 c3 c4 e1 e2 e3 e4 by (simp add: limits_entries_def added_added builders_added)
  from Cons.IH[OF rest] show ?case
    using s4' c1 c2 c3 c4 e1 e2 e3
    by (simp add: added_added builders_added limits_entries_def)
qed

lemma define_constraints_Return:
  assumes "define_constraints self = Return self'"
  shows "self' = added self (all_entries self)"
    and "\<not> isl (start_of_year_constraint self)"
    and "\<forall>t \<in> set (butlast (time_index (inputs self))).
            \<not> isl (storage_level_constraint self t) \<and> \<not> isl (available_energy_constraint self t)"
    and "\<forall>t \<in> set (time_index (inputs self)).
            \<not> isl (charge_constraint self t) \<and> \<not> isl (discharge_constraint self t) \<and>
            \<not> isl (level_constraint self t) \<and> \<not> isl (load_constraint self t)"
proof -
  from assms obtain s1 s2 s3 where
    s1: "lpmodel_iadd duration_constraint (lbl_duration, None) self = Return s1"
    and s2: "lpmodel_iadd start_of_year_constraint (lbl_start, None) s1 = Return s2"
    and s3: "storage_level_loop (butlast (time_index (inputs s2))) s2 = Return s3"
    and s4: "limits_loop (time_index (inputs s3)) s3 = Return self'"
    by (auto simp: define_constraints_def and_then_Return)
  from s1 obtain c1 where c1: "duration_constraint self = Inr c1"
    and e1: "s1 = added self [((lbl_duration, None), c1)]"
    by (auto simp: lpmodel_iadd_Return)
  from s2 obtain c2 where c2: "start_of_year_constraint s1 = Inr c2"
    and e2: "s2 = added s1 [((lbl_start, None), c2)]"
    by (auto simp: lpmodel_iadd_Return)
  have e2': "s2 = added self [((lbl_duration, None), projr (duration_constraint self)),
      ((lbl_start, None), projr (start_of_year_constraint self))]"
    using c1 c2 e1 e2 by (simp add: added_added builders_added)
  note l3 = storage_level_loop_Return[OF s3]
  note l4 = limits_loop_Return[OF s4]
  have cong3: "storage_level_entries s2 = storage_level_entries self"
    by (rule ext) (simp add: e2' storage_level_entries_def builders_added)
  have e3: "s3 = added self ([((lbl_duration, None), projr (duration_constraint self)),
      ((lbl_start, None), projr (start_of_year_constraint self))] @
      concat (map (storage_level_entries self) (butlast (time_index (inputs self)))))"
    using l3 cong3 by (simp add: e2' added_added added_simps)
  have cong4: "limits_entries s3 = limits_entries self"
    by (rule ext) (simp add: e3 limits_entries_def builders_added)
  show "self' = added self (all_entries self)"
    using l4 cong4 by (simp add: e3 added_added added_simps all_entries_def)
  show "\<not> isl (start_of_year_constraint self)"
    using c2 e1 by (simp add: builders_added)
  show "\<forall>t \<in> set (butlast (time_index (inputs self))).
            \<not> isl (storage_level_constraint self t) \<and> \<not> isl (available_energy_constraint self t)"
    using l3 by (simp add: e2' builders_added added_simps)
  show "\<forall>t \<in> set (time_index (inputs self)).
            \<not> isl (charge_constraint self t) \<and> \<not> isl (discharge_constraint self t) \<and>
            \<not> isl (level_constraint self t) \<and> \<not> isl (load_constraint self t)"
    using l4 by (simp add: e3 builders_added added_simps)
qed

subsection \<open>The constructed manager\<close>

lemma prepared_simps:
  "inputs (prepared inp) = inp"
  "solved_status (prepared inp) = False"
  "constraints (lpmodel (prepared inp)) = []"
  "status (lpmodel (prepared inp)) = 0"
  "scalar (vars (prepared inp)) = \<lparr>capacity = Var_capacity, power = Var_power\<rparr>"
  "level (time (vars (prepared inp))) = LpVariable_dicts Var_storagelevel (time_index inp)"
  "charge (time (vars (prepared inp))) = LpVariable_dicts Var_charge (time_index inp)"
  "discharge (time (vars (prepared inp))) = LpVariable_dicts Var_discharge (time_index inp)"
  by (simp_all add: prepared_def define_objective_function_def define_endogenous_variables_def
      setup_linear_problem_def new_object_def LpProblem_init_def iadd_objective_def
      LpStatusNotSolved_def)

lemma prepared_objective:
  "objective (lpmodel (prepared inp)) =
     Some (expr_add (expr_mul (expr_var Var_capacity) (capex_capacity (storage inp)))
                    (expr_mul (expr_var Var_power) (capex_power (storage inp))))"
  by (simp add: prepared_def define_objective_function_def define_endogenous_variables_def
      setup_linear_problem_def new_object_def iadd_objective_def obj_func_capex_total_def)

lemma init_Inr:
  "ScenarioManager_init inp = Inr sm \<longleftrightarrow> define_constraints (prepared inp) = Return sm"
  by (simp add: ScenarioManager_init_def prepared_def split: outcome.splits)

lemma init_added:
  "ScenarioManager_init inp = Inr sm \<Longrightarrow> sm = added (prepared inp) (all_entries (prepared inp))"
  by (simp add: init_Inr define_constraints_Return(1))

lemma init_constraints:
  "ScenarioManager_init inp = Inr sm \<Longrightarrow>
     constraints (lpmodel sm) = all_entries (prepared inp)"
proof -
  assume "ScenarioManager_init inp = Inr sm"
  then have "constraints (lpmodel sm) =
      constraints (lpmodel (added (prepared inp) (all_entries (prepared inp))))"
    by (simp add: init_added [symmetric])
  then show ?thesis
    by (simp add: added_simps prepared_simps)
qed

lemma length_concat_entries:
  "length (concat (map (storage_level_entries self) ts)) = 2 * length ts"
  "length (concat (map (limits_entries self) ts)) = 4 * length ts"
  by (induction ts) (simp_all add: storage_level_entries_def limits_entries_def)

lemma length_all_entries:
  "length (all_entries self) =
     1 + 1 + 2 * (length (time_index (inputs self)) - 1) + 4 * length (time_index (inputs self))"
  by (simp add: all_entries_def length_concat_entries)

lemma ex_single_built: "\<not> isl (ScenarioManager_init (ex_inputs [0]))"
  by code_simp

lemma ex_three_built: "\<not> isl (ScenarioManager_init (ex_inputs [0, 1, 2]))"
  by code_simp

lemma ex_time_index: "time_index (ex_inputs ti) = ti"
  by (simp add: ex_inputs_def)

text \<open>
  Claim C1, as the code has it: whenever the constructor returns, the problem holds
  \<open>1 + 1 + 2 * (N - 1) + 4 * N\<close> constraints for a time index of length \<open>N\<close>: the
  duration floor, the wrap-around balance, two per step but the last, and four per
  step (charge limit, discharge limit, level limit, load supplied).
\<close>

theorem C1_constraint_count:
  "ScenarioManager_init inp = Inr sm \<Longrightarrow>
     length (constraints (lpmodel sm)) =
       1 + 1 + 2 * (length (time_index inp) - 1) + 4 * length (time_index inp)"
proof -
  assume built: "ScenarioManager_init inp = Inr sm"
  have "length (constraints (lpmodel sm)) = length (all_entries (prepared inp))"
    by (simp add: init_constraints [OF built])
  also have "\<dots> = 1 + 1 + 2 * (length (time_index inp) - 1) + 4 * length (time_index inp)"
    by (simp add: length_all_entries prepared_simps)
  finally show ?thesis .
qed

theorem C1_constraint_count_witness:
  "ScenarioManager_init (ex_inputs [0, 1, 2]) =
     Inr (projr (ScenarioManager_init (ex_inputs [0, 1, 2]))) \<and>
   length (constraints (lpmodel (projr (ScenarioManager_init (ex_inputs [0, 1, 2]))))) = 18"
proof -
  have built: "ScenarioManager_init (ex_inputs [0, 1, 2]) =
     Inr (projr (ScenarioManager_init (ex_inputs [0, 1, 2])))"
    using ex_three_built by (cases "ScenarioManager_init (ex_inputs [0, 1, 2])") simp_all
  from C1_constraint_count[OF built] show ?thesis
    using built by (simp add: ex_time_index)
qed

text \<open>
  The count that claim C1 states, with three constraints per step, fails on the time
  index \<open>[0]\<close>: the problem holds six constraints, not five.
\<close>

theorem C1_three_per_step_counterexample:
  "\<not> isl (ScenarioManager_init (ex_inputs [0])) \<and>
   length (constraints (lpmodel (projr (ScenarioManager_init (ex_inputs [0]))))) \<noteq>
     1 + 1 + 2 * (length (time_index (ex_inputs [0])) - 1) + 3 * length (time_index (ex_inputs [0]))"
proof -
  have built: "ScenarioManager_init (ex_inputs [0]) =
     Inr (projr (ScenarioManager_init (ex_inputs [0])))"
    using ex_single_built by (cases "ScenarioManager_init (ex_inputs [0])") simp_all
  have "length (constraints (lpmodel (projr (ScenarioManager_init (ex_inputs [0]))))) =
      length (all_entries (prepared (ex_inputs [0])))"
    by (simp add: init_constraints [OF built])
  then show ?thesis
    using ex_single_built by (simp add: length_all_entries prepared_simps ex_time_index)
qed

subsection \<open>The value of an expression\<close>

lemma terms_value_addterm: "terms_value a (addterm v x ts) = terms_value a ts + x * a v"
  by (induction ts) (auto simp: terms_value_def algebra_simps)

lemma terms_value_fold_add:
  "terms_value a (fold (\<lambda>vx. addterm (fst vx) (snd vx)) us ts) =
     terms_value a ts + terms_value a us"
proof (induction us arbitrary: ts)
  case Nil
  show ?case by (simp add: terms_value_def)
next
  case (Cons u us)
  have "terms_value a (u # us) = snd u * a (fst u) + terms_value a us"
    by (simp add: terms_value_def)
  then show ?case
    by (simp add: Cons.IH terms_value_addterm)
qed

lemma terms_value_fold_sub:
  "terms_value a (fold (\<lambda>vx. addterm (fst vx) (- snd vx)) us ts) =
     terms_value a ts - terms_value a us"
proof (induction us arbitrary: ts)
  case Nil
  show ?case by (simp add: terms_value_def)
next
  case (Cons u us)
  have "terms_value a (u # us) = snd u * a (fst u) + terms_value a us"
    by (simp add: terms_value_def)
  then show ?case
    by (simp add: Cons.IH terms_value_addterm)
qed

lemma expr_value_var: "expr_value a (expr_var v) = Some (a v)"
  by (simp add: expr_value_def expr_var_def terms_value_def)

lemma expr_value_add:
  "expr_value a (expr_add e1 e2) = fadd (expr_value a e1) (expr_value a e2)"
  by (cases "const_term e1"; cases "const_term e2")
     (simp_all add: expr_value_def expr_add_def terms_value_fold_add)

lemma expr_value_sub:
  "expr_value a (expr_sub e1 e2) = fsub (expr_value a e1) (expr_value a e2)"
  by (cases "const_term e1"; cases "const_term e2")
     (simp_all add: expr_value_def expr_sub_def terms_value_fold_sub)

lemma expr_value_add_const:
  "expr_value a (expr_add_const e c) = fadd (expr_value a e) c"
  by (cases "const_term e"; cases c) (simp_all add: expr_value_def expr_add_const_def)

lemma expr_value_sub_const:
  "expr_value a (expr_sub_const e c) = fsub (expr_value a e) c"
  by (cases "const_term e"; cases c) (simp_all add: expr_value_def expr_sub_const_def)

lemma expr_value_mul_var: "expr_value a (expr_mul (expr_var v) c) = Some (a v * c)"
  by (simp add: expr_value_def expr_mul_def expr_var_def terms_value_def)

lemma terms_mul_var:
  "set (map fst (terms (expr_mul (expr_var v) c))) \<subseteq> {v}"
  "const_term (expr_mul (expr_var v) c) = Some 0"
  by (simp_all add: expr_mul_def expr_var_def)

lemma map_fst_addterm:
  "map fst (addterm v x ts) = (if v \<in> set (map fst ts) then map fst ts else map fst ts @ [v])"
  by (induction ts) (auto simp del: set_map)

lemma keys_addterm: "set (map fst (addterm v x ts)) = insert v (set (map fst ts))"
  by (simp add: map_fst_addterm del: set_map) auto

lemma keys_expr_add:
  "set (map fst (terms (expr_add e1 e2))) = set (map fst (terms e1)) \<union> set (map fst (terms e2))"
proof -
  have "set (map fst (fold (\<lambda>vx. addterm (fst vx) (snd vx)) us ts)) =
      set (map fst ts) \<union> set (map fst us)" for us ts
    by (induction us arbitrary: ts) (simp_all add: keys_addterm del: set_map)
  then show ?thesis by (simp add: expr_add_def)
qed

lemma valid_eq:
  "constraint_valid a (expr_eq e1 e2) \<longleftrightarrow> fsub (expr_value a e1) (expr_value a e2) = Some 0"
  by (simp add: constraint_valid_def expr_eq_def expr_value_sub)

lemma valid_ge:
  "constraint_valid a (expr_ge e1 e2) \<longleftrightarrow> fge (fsub (expr_value a e1) (expr_value a e2)) (Some 0)"
  by (simp add: constraint_valid_def expr_ge_def expr_value_sub)

lemma valid_le:
  "constraint_valid a (expr_le e1 e2) \<longleftrightarrow> fge (Some 0) (fsub (expr_value a e1) (expr_value a e2))"
  by (simp add: constraint_valid_def expr_le_def expr_value_sub)

lemma valid_ge_const:
  "constraint_valid a (expr_ge_const e c) \<longleftrightarrow> fge (fsub (expr_value a e) c) (Some 0)"
  by (simp add: constraint_valid_def expr_ge_const_def expr_value_sub_const)

subsection \<open>Looking the variables up\<close>

lemma LpVariable_dicts_getitem:
  "dict_getitem (LpVariable_dicts f ti) t = (if t \<in> set ti then Inr (f t) else Inl KeyError)"
proof -
  have "map_of (map (\<lambda>i. (i, f i)) ti) t = (if t \<in> set ti then Some (f t) else None)"
    by (induction ti) auto
  then show ?thesis
    by (simp add: dict_getitem_def LpVariable_dicts_def)
qed

lemma py_max_Inr: "py_max ts = Inr m \<Longrightarrow> m \<in> set ts \<and> m = Max (set ts)"
proof (cases ts)
  case Nil
  assume "py_max ts = Inr m"
  with Nil show ?thesis by simp
next
  case (Cons x xs)
  assume "py_max ts = Inr m"
  with Cons have m: "m = fold max xs x" by simp
  have "fold max xs x = Max (set (x # xs))"
    by (rule Max.set_eq_fold [symmetric])
  moreover have "Max (set (x # xs)) \<in> set (x # xs)"
    by (rule Max_in) simp_all
  ultimately show ?thesis using m Cons by simp
qed

subsection \<open>The constraint expressions of a constructed manager\<close>

lemma start_of_year_prepared:
  assumes "start_of_year_constraint (prepared inp) = Inr c"
  shows "\<exists>m. py_max (time_index inp) = Inr m \<and> 0 \<in> set (time_index inp) \<and>
           c = expr_eq (expr_var (Var_storagelevel 0))
                 (expr_add (expr_sub (expr_var (Var_storagelevel m)) (expr_var (Var_discharge m)))
                           (expr_mul (expr_var (Var_charge m)) (efficiency (storage inp))))"
  using assms
  by (auto simp: start_of_year_constraint_def bind_error_Inr prepared_simps
      LpVariable_dicts_getitem split: if_splits)

lemma storage_level_prepared:
  assumes "storage_level_constraint (prepared inp) t = Inr c"
  shows "c = expr_eq (expr_var (Var_storagelevel (t + 1)))
                 (expr_add (expr_sub (expr_var (Var_storagelevel t)) (expr_var (Var_discharge t)))
                           (expr_mul (expr_var (Var_charge t)) (efficiency (storage inp))))"
  using assms
  by (auto simp: storage_level_constraint_def bind_error_Inr prepared_simps
      LpVariable_dicts_getitem split: if_splits)

lemma load_prepared:
  assumes "load_constraint (prepared inp) t = Inr c"
  shows "\<exists>total g l. df_getitem (generation (renewables inp)) ''Total'' = Inr total \<and>
           series_getitem total t = Inr g \<and>
           series_getitem (Load.load (ScenarioInputs.load inp)) t = Inr l \<and>
           c = expr_ge_const
                 (expr_sub (expr_add_const (expr_var (Var_discharge t)) g)
                           (expr_var (Var_charge t))) l"
  using assms
  by (auto simp: load_constraint_def bind_error_Inr prepared_simps
      LpVariable_dicts_getitem split: if_splits)

lemma valid_balance:
  "constraint_valid a
     (expr_eq (expr_var l1)
        (expr_add (expr_sub (expr_var l) (expr_var d)) (expr_mul (expr_var c) eff))) \<longleftrightarrow>
   a l1 = a l - a d + eff * a c"
  by (auto simp: valid_eq expr_value_var expr_value_add expr_value_sub expr_value_mul_var)

lemma valid_service:
  "constraint_valid a
     (expr_ge_const (expr_sub (expr_add_const (expr_var d) g) (expr_var c)) l) \<longleftrightarrow>
   fge (fsub (fadd g (Some (a d))) (Some (a c))) l"
  by (cases g; cases l)
     (auto simp: valid_ge_const expr_value_var expr_value_add_const expr_value_sub)

subsection \<open>The names of the constraints are distinct\<close>

lemma lpmodel_iadd_distinct:
  assumes "lpmodel_iadd c n self = Return self'"
    and "distinct (map fst (constraints (lpmodel self)))"
  shows "distinct (map fst (constraints (lpmodel self')))"
  using assms by (auto simp: lpmodel_iadd_Return added_simps)

lemma storage_level_loop_distinct:
  "storage_level_loop ts self = Return self' \<Longrightarrow>
   distinct (map fst (constraints (lpmodel self))) \<Longrightarrow>
   distinct (map fst (constraints (lpmodel self')))"
proof (induction ts arbitrary: self)
  case Nil
  then show ?case by simp
next
  case (Cons t ts)
  from Cons.prems(1) obtain s1 s2 where
    s1: "lpmodel_iadd (\<lambda>s. storage_level_constraint s t) (lbl_storage_level, Some t) self = Return s1"
    and s2: "lpmodel_iadd (\<lambda>s. available_energy_constraint s t) (lbl_available, Some t) s1 = Return s2"
    and rest: "storage_level_loop ts s2 = Return self'"
    by (auto simp: and_then_Return)
  have "distinct (map fst (constraints (lpmodel s2)))"
    by (rule lpmodel_iadd_distinct [OF s2 lpmodel_iadd_distinct [OF s1 Cons.prems(2)]])
  then show ?case
    by (rule Cons.IH [OF rest])
qed

lemma limits_loop_distinct:
  "limits_loop ts self = Return self' \<Longrightarrow>
   distinct (map fst (constraints (lpmodel self))) \<Longrightarrow>
   distinct (map fst (constraints (lpmodel self')))"
proof (induction ts arbitrary: self)
  case Nil
  then show ?case by simp
next
  case (Cons t ts)
  from Cons.prems(1) obtain s1 s2 s3 s4 where
    s1: "lpmodel_iadd (\<lambda>s. charge_constraint s t) (lbl_charge, Some t) self = Return s1"
    and s2: "lpmodel_iadd (\<lambda>s. discharge_constraint s t) (lbl_discharge, Some t) s1 = Return s2"
    and s3: "lpmodel_iadd (\<lambda>s. level_constraint s t) (lbl_level, Some t) s2 = Return s3"
    and s4: "lpmodel_iadd (\<lambda>s. load_constraint s t) (lbl_load, Some t) s3 = Return s4"
    and rest: "limits_loop ts s4 = Return self'"
    by (auto simp: and_then_Return)
  have "distinct (map fst (constraints (lpmodel s1)))"
    by (rule lpmodel_iadd_distinct [OF s1 Cons.prems(2)])
  then have "distinct (map fst (constraints (lpmodel s2)))"
    by (rule lpmodel_iadd_distinct [OF s2])
  then have "distinct (map fst (constraints (lpmodel s3)))"
    by (rule lpmodel_iadd_distinct [OF s3])
  then have "distinct (map fst (constraints (lpmodel s4)))"
    by (rule lpmodel_iadd_distinct [OF s4])
  then show ?case
    by (rule Cons.IH [OF rest])
qed

lemma define_constraints_distinct:
  assumes "define_constraints self = Return self'"
    and "distinct (map fst (constraints (lpmodel self)))"
  shows "distinct (map fst (constraints (lpmodel self')))"
proof -
  from assms(1) obtain s1 s2 s3 where
    s1: "lpmodel_iadd duration_constraint (lbl_duration, None) self = Return s1"
    and s2: "lpmodel_iadd start_of_year_constraint (lbl_start, None) s1 = Return s2"
    and s3: "storage_level_loop (butlast (time_index (inputs s2))) s2 = Return s3"
    and s4: "limits_loop (time_index (inputs s3)) s3 = Return self'"
    by (auto simp: define_constraints_def and_then_Return)
  have "distinct (map fst (constraints (lpmodel s1)))"
    by (rule lpmodel_iadd_distinct [OF s1 assms(2)])
  then have "distinct (map fst (constraints (lpmodel s2)))"
    by (rule lpmodel_iadd_distinct [OF s2])
  then have "distinct (map fst (constraints (lpmodel s3)))"
    by (rule storage_level_loop_distinct [OF s3])
  then show ?thesis
    by (rule limits_loop_distinct [OF s4])
qed

lemma init_distinct:
  "ScenarioManager_init inp = Inr sm \<Longrightarrow> distinct (map fst (constraints (lpmodel sm)))"
  by (rule define_constraints_distinct [where self = "prepared inp"])
     (simp_all add: init_Inr prepared_simps)

lemma init_lookup:
  assumes "ScenarioManager_init inp = Inr sm"
    and "(n, c) \<in> set (all_entries (prepared inp))"
  shows "map_of (constraints (lpmodel sm)) n = Some c"
  using init_distinct [OF assms(1)] assms(2) init_constraints [OF assms(1)]
  by simp

lemma init_builders:
  assumes "ScenarioManager_init inp = Inr sm"
  shows "\<not> isl (start_of_year_constraint (prepared inp))"
    and "t \<in> set (butlast (time_index inp)) \<Longrightarrow> \<not> isl (storage_level_constraint (prepared inp) t)"
    and "t \<in> set (time_index inp) \<Longrightarrow> \<not> isl (load_constraint (prepared inp) t)"
  using define_constraints_Return(2-4) [of "prepared inp" sm] assms
  by (simp_all add: init_Inr prepared_simps)

lemma entries_member:
  "t \<in> set (butlast (time_index (inputs self))) \<Longrightarrow>
     ((lbl_storage_level, Some t), projr (storage_level_constraint self t)) \<in> set (all_entries self)"
  "t \<in> set (time_index (inputs self)) \<Longrightarrow>
     ((lbl_load, Some t), projr (load_constraint self t)) \<in> set (all_entries self)"
  "((lbl_start, None), projr (start_of_year_constraint self)) \<in> set (all_entries self)"
  by (auto simp: all_entries_def storage_level_entries_def limits_entries_def)

subsection \<open>The example scenarios\<close>

lemma ex_built_single: "ScenarioManager_init (ex_inputs [0]) = Inr (ex_manager [0])"
  using ex_single_built
  by (cases "ScenarioManager_init (ex_inputs [0])") (simp_all add: ex_manager_def)

lemma ex_built_three: "ScenarioManager_init (ex_inputs [0, 1, 2]) = Inr (ex_manager [0, 1, 2])"
  using ex_three_built
  by (cases "ScenarioManager_init (ex_inputs [0, 1, 2])") (simp_all add: ex_manager_def)

lemma ex_inputs_simps:
  "efficiency (storage (ex_inputs ti)) = 9 / 10"
  "minimum_duration (storage (ex_inputs ti)) = 2"
  "capex_power (storage (ex_inputs ti)) = 1"
  "capex_capacity (storage (ex_inputs ti)) = 1"
  "generation (renewables (ex_inputs ti)) =
     [(''Solar'', [Some 100, Some 100, Some 100]), (''Total'', [Some 100, Some 100, Some 100])]"
  "Load.load (ScenarioInputs.load (ex_inputs ti)) = [Some 25, Some 25, Some 25]"
  by (simp_all add: ex_inputs_def ex_storage_def ex_renewables_def Load_init_def rmul_series_def)

subsection \<open>The labels\<close>

lemma lbl_neq:
  "lbl_duration \<noteq> lbl_start"
  "lbl_storage_level \<noteq> lbl_duration"
  "lbl_storage_level \<noteq> lbl_start"
  "lbl_storage_level \<noteq> lbl_available"
  "lbl_storage_level \<noteq> lbl_charge"
  "lbl_storage_level \<noteq> lbl_discharge"
  "lbl_storage_level \<noteq> lbl_level"
  "lbl_storage_level \<noteq> lbl_load"
  by (simp_all add: lbl_duration_def lbl_start_def lbl_storage_level_def lbl_available_def
      lbl_charge_def lbl_discharge_def lbl_level_def lbl_load_def)

lemma filter_start_entries:
  "filter (\<lambda>nc. fst nc = (l, None)) (concat (map (storage_level_entries self) ts)) = []"
  "filter (\<lambda>nc. fst nc = (l, None)) (concat (map (limits_entries self) ts)) = []"
  by (induction ts) (simp_all add: storage_level_entries_def limits_entries_def)

lemma filter_start_all:
  "filter (\<lambda>nc. fst nc = (lbl_start, None)) (all_entries self) =
     [((lbl_start, None), projr (start_of_year_constraint self))]"
  by (simp add: all_entries_def filter_start_entries lbl_neq)

lemma filter_storage_level_single:
  "time_index (inputs self) = [0] \<Longrightarrow>
     filter (\<lambda>nc. fst (fst nc) = lbl_storage_level) (all_entries self) = []"
  using lbl_neq by (auto simp: all_entries_def limits_entries_def)

text \<open>
  Claim C2: the problem of a constructed manager holds exactly one constraint under
  the wrap-around name, and it is valid exactly when
  \<open>level[0] = level[t_max] - discharge[t_max] + efficiency * charge[t_max]\<close> for
  \<open>t_max\<close> the largest time step. For the time index \<open>[0]\<close> that is
  \<open>discharge[0] = efficiency * charge[0]\<close>, and no constraint carries the name of the
  forward balance.
\<close>

theorem C2_wrap_around:
  assumes built: "ScenarioManager_init inp = Inr sm"
  shows "\<exists>c. filter (\<lambda>nc. fst nc = (lbl_start, None)) (constraints (lpmodel sm)) =
               [((lbl_start, None), c)] \<and>
             (\<forall>a. constraint_valid a c \<longleftrightarrow>
                a (Var_storagelevel 0) =
                  a (Var_storagelevel (Max (set (time_index inp))))
                  - a (Var_discharge (Max (set (time_index inp))))
                  + efficiency (storage inp) * a (Var_charge (Max (set (time_index inp))))) \<and>
             (time_index inp = [0] \<longrightarrow>
                (\<forall>a. constraint_valid a c \<longleftrightarrow>
                   a (Var_discharge 0) = efficiency (storage inp) * a (Var_charge 0)) \<and>
                filter (\<lambda>nc. fst (fst nc) = lbl_storage_level) (constraints (lpmodel sm)) = [])"
proof -
  let ?c = "projr (start_of_year_constraint (prepared inp))"
  have cs: "constraints (lpmodel sm) = all_entries (prepared inp)"
    by (rule init_constraints [OF built])
  have "start_of_year_constraint (prepared inp) = Inr ?c"
    using init_builders(1) [OF built]
    by (cases "start_of_year_constraint (prepared inp)") simp_all
  then obtain m where m: "py_max (time_index inp) = Inr m"
    and c: "?c = expr_eq (expr_var (Var_storagelevel 0))
                 (expr_add (expr_sub (expr_var (Var_storagelevel m)) (expr_var (Var_discharge m)))
                           (expr_mul (expr_var (Var_charge m)) (efficiency (storage inp))))"
    using start_of_year_prepared by blast
  have max: "m = Max (set (time_index inp))"
    using py_max_Inr [OF m] by simp
  have one: "filter (\<lambda>nc. fst nc = (lbl_start, None)) (constraints (lpmodel sm)) =
      [((lbl_start, None), ?c)]"
    by (simp add: cs filter_start_all)
  have valid: "constraint_valid a ?c \<longleftrightarrow>
      a (Var_storagelevel 0) = a (Var_storagelevel m) - a (Var_discharge m)
        + efficiency (storage inp) * a (Var_charge m)" for a
    by (simp only: c valid_balance)
  have degenerate: "(x = x - d + e) \<longleftrightarrow> (d = e)" for x d e :: real
    by auto
  have single: "time_index inp = [0] \<Longrightarrow>
      (\<forall>a. constraint_valid a ?c \<longleftrightarrow>
          a (Var_discharge 0) = efficiency (storage inp) * a (Var_charge 0)) \<and>
      filter (\<lambda>nc. fst (fst nc) = lbl_storage_level) (constraints (lpmodel sm)) = []"
  proof -
    assume ti: "time_index inp = [0]"
    then have "m = 0"
      using max by simp
    then have "\<forall>a. constraint_valid a ?c \<longleftrightarrow>
        a (Var_discharge 0) = efficiency (storage inp) * a (Var_charge 0)"
      by (simp only: valid degenerate) simp
    moreover have "filter (\<lambda>nc. fst (fst nc) = lbl_storage_level) (constraints (lpmodel sm)) = []"
      using ti by (simp add: cs filter_storage_level_single prepared_simps)
    ultimately show ?thesis by simp
  qed
  from one valid single show ?thesis
    unfolding max by blast
qed

theorem C2_wrap_around_witness:
  "ScenarioManager_init (ex_inputs [0]) = Inr (ex_manager [0]) \<and>
   time_index (ex_inputs [0]) = [0] \<and>
   (\<exists>c. filter (\<lambda>nc. fst nc = (lbl_start, None)) (constraints (lpmodel (ex_manager [0]))) =
           [((lbl_start, None), c)] \<and>
        (\<forall>a. constraint_valid a c \<longleftrightarrow> a (Var_discharge 0) = 9 / 10 * a (Var_charge 0)) \<and>
        filter (\<lambda>nc. fst (fst nc) = lbl_storage_level) (constraints (lpmodel (ex_manager [0]))) = [])"
proof -
  have ti: "time_index (ex_inputs [0]) = [0]"
    by (simp add: ex_time_index)
  from C2_wrap_around [OF ex_built_single] obtain c where
    one: "filter (\<lambda>nc. fst nc = (lbl_start, None)) (constraints (lpmodel (ex_manager [0]))) =
           [((lbl_start, None), c)]"
    and single: "time_index (ex_inputs [0]) = [0] \<longrightarrow>
        (\<forall>a. constraint_valid a c \<longleftrightarrow>
           a (Var_discharge 0) = efficiency (storage (ex_inputs [0])) * a (Var_charge 0)) \<and>
        filter (\<lambda>nc. fst (fst nc) = lbl_storage_level) (constraints (lpmodel (ex_manager [0]))) = []"
    by blast
  from single ti have
    "(\<forall>a. constraint_valid a c \<longleftrightarrow> a (Var_discharge 0) = 9 / 10 * a (Var_charge 0)) \<and>
     filter (\<lambda>nc. fst (fst nc) = lbl_storage_level) (constraints (lpmodel (ex_manager [0]))) = []"
    unfolding ex_inputs_simps by blast
  with one ti ex_built_single show ?thesis
    by blast
qed

text \<open>
  Claim C3: for every time step \<open>t\<close> but the last, the problem of a constructed manager
  holds, under the name of the forward balance at \<open>t\<close>, a constraint that is valid
  exactly when \<open>level[t+1] = level[t] - discharge[t] + efficiency * charge[t]\<close>.
\<close>

theorem C3_forward_balance:
  assumes built: "ScenarioManager_init inp = Inr sm"
    and t: "t \<in> set (butlast (time_index inp))"
  shows "\<exists>c. map_of (constraints (lpmodel sm)) (lbl_storage_level, Some t) = Some c \<and>
             (\<forall>a. constraint_valid a c \<longleftrightarrow>
                a (Var_storagelevel (t + 1)) =
                  a (Var_storagelevel t) - a (Var_discharge t)
                  + efficiency (storage inp) * a (Var_charge t))"
proof -
  let ?c = "projr (storage_level_constraint (prepared inp) t)"
  have "storage_level_constraint (prepared inp) t = Inr ?c"
    using init_builders(2) [OF built t]
    by (cases "storage_level_constraint (prepared inp) t") simp_all
  then have c: "?c = expr_eq (expr_var (Var_storagelevel (t + 1)))
                 (expr_add (expr_sub (expr_var (Var_storagelevel t)) (expr_var (Var_discharge t)))
                           (expr_mul (expr_var (Var_charge t)) (efficiency (storage inp))))"
    by (rule storage_level_prepared)
  have "((lbl_storage_level, Some t), ?c) \<in> set (all_entries (prepared inp))"
    using t by (simp add: entries_member(1) prepared_simps)
  then have "map_of (constraints (lpmodel sm)) (lbl_storage_level, Some t) = Some ?c"
    by (rule init_lookup [OF built])
  moreover have "constraint_valid a ?c \<longleftrightarrow>
      a (Var_storagelevel (t + 1)) = a (Var_storagelevel t) - a (Var_discharge t)
        + efficiency (storage inp) * a (Var_charge t)" for a
    by (simp only: c valid_balance)
  ultimately show ?thesis by blast
qed

theorem C3_forward_balance_witness:
  "ScenarioManager_init (ex_inputs [0, 1, 2]) = Inr (ex_manager [0, 1, 2]) \<and>
   (1 :: int) \<in> set (butlast (time_index (ex_inputs [0, 1, 2]))) \<and>
   (\<exists>c. map_of (constraints (lpmodel (ex_manager [0, 1, 2]))) (lbl_storage_level, Some 1) = Some c \<and>
        (\<forall>a. constraint_valid a c \<longleftrightarrow>
           a (Var_storagelevel 2) =
             a (Var_storagelevel 1) - a (Var_discharge 1) + 9 / 10 * a (Var_charge 1)))"
proof -
  have t: "(1 :: int) \<in> set (butlast (time_index (ex_inputs [0, 1, 2])))"
    by (simp add: ex_time_index)
  from C3_forward_balance [OF ex_built_three t] obtain c where
    "map_of (constraints (lpmodel (ex_manager [0, 1, 2]))) (lbl_storage_level, Some 1) = Some c"
    and "\<forall>a. constraint_valid a c \<longleftrightarrow>
           a (Var_storagelevel (1 + 1)) =
             a (Var_storagelevel 1) - a (Var_discharge 1)
             + efficiency (storage (ex_inputs [0, 1, 2])) * a (Var_charge 1)"
    by blast
  then have "\<exists>c. map_of (constraints (lpmodel (ex_manager [0, 1, 2]))) (lbl_storage_level, Some 1) = Some c \<and>
        (\<forall>a. constraint_valid a c \<longleftrightarrow>
           a (Var_storagelevel 2) =
             a (Var_storagelevel 1) - a (Var_discharge 1) + 9 / 10 * a (Var_charge 1))"
    by (simp only: ex_inputs_simps one_add_one) blast
  with t ex_built_three show ?thesis
    by blast
qed

text \<open>
  Claim C4: for every time step \<open>t\<close>, the problem of a constructed manager holds, under
  the name of the service constraint at \<open>t\<close>, a constraint that is valid exactly when
  \<open>generation["Total"][t] + discharge[t] - charge[t] \<ge> load[t]\<close>, the two numbers read
  from the generation table and the load series of the inputs.
\<close>

theorem C4_service:
  assumes built: "ScenarioManager_init inp = Inr sm"
    and t: "t \<in> set (time_index inp)"
  shows "\<exists>c total g l.
           df_getitem (generation (renewables inp)) ''Total'' = Inr total \<and>
           series_getitem total t = Inr g \<and>
           series_getitem (Load.load (ScenarioInputs.load inp)) t = Inr l \<and>
           map_of (constraints (lpmodel sm)) (lbl_load, Some t) = Some c \<and>
           (\<forall>a. constraint_valid a c \<longleftrightarrow>
              fge (fsub (fadd g (Some (a (Var_discharge t)))) (Some (a (Var_charge t)))) l)"
proof -
  let ?c = "projr (load_constraint (prepared inp) t)"
  have "load_constraint (prepared inp) t = Inr ?c"
    using init_builders(3) [OF built t]
    by (cases "load_constraint (prepared inp) t") simp_all
  then obtain total g l where
    total: "df_getitem (generation (renewables inp)) ''Total'' = Inr total"
    and g: "series_getitem total t = Inr g"
    and l: "series_getitem (Load.load (ScenarioInputs.load inp)) t = Inr l"
    and c: "?c = expr_ge_const
                 (expr_sub (expr_add_const (expr_var (Var_discharge t)) g)
                           (expr_var (Var_charge t))) l"
    using load_prepared by blast
  have "((lbl_load, Some t), ?c) \<in> set (all_entries (prepared inp))"
    using t by (simp add: entries_member(2) prepared_simps)
  then have "map_of (constraints (lpmodel sm)) (lbl_load, Some t) = Some ?c"
    by (rule init_lookup [OF built])
  moreover have "constraint_valid a ?c \<longleftrightarrow>
      fge (fsub (fadd g (Some (a (Var_discharge t)))) (Some (a (Var_charge t)))) l" for a
    by (simp only: c valid_service)
  ultimately show ?thesis
    using total g l by blast
qed

theorem C4_service_witness:
  "ScenarioManager_init (ex_inputs [0, 1, 2]) = Inr (ex_manager [0, 1, 2]) \<and>
   (2 :: int) \<in> set (time_index (ex_inputs [0, 1, 2])) \<and>
   (\<exists>c. map_of (constraints (lpmodel (ex_manager [0, 1, 2]))) (lbl_load, Some 2) = Some c \<and>
        (\<forall>a. constraint_valid a c \<longleftrightarrow> 100 + a (Var_discharge 2) - a (Var_charge 2) \<ge> 25))"
proof -
  have t: "(2 :: int) \<in> set (time_index (ex_inputs [0, 1, 2]))"
    by (simp add: ex_time_index)
  from C4_service [OF ex_built_three t] obtain c total g l where
    total: "df_getitem (generation (renewables (ex_inputs [0, 1, 2]))) ''Total'' = Inr total"
    and g: "series_getitem total 2 = Inr g"
    and l: "series_getitem (Load.load (ScenarioInputs.load (ex_inputs [0, 1, 2]))) 2 = Inr l"
    and c: "map_of (constraints (lpmodel (ex_manager [0, 1, 2]))) (lbl_load, Some 2) = Some c"
    and valid: "\<And>a. constraint_valid a c \<longleftrightarrow>
              fge (fsub (fadd g (Some (a (Var_discharge 2)))) (Some (a (Var_charge 2)))) l"
    by blast
  from total have "total = [Some 100, Some 100, Some 100]"
    by (simp add: ex_inputs_simps df_getitem_def)
  with g have g': "g = Some 100"
    by (simp add: series_getitem_def)
  from l have l': "l = Some 25"
    by (simp add: ex_inputs_simps series_getitem_def)
  have "constraint_valid a c \<longleftrightarrow> 100 + a (Var_discharge 2) - a (Var_charge 2) \<ge> 25" for a
    by (simp add: valid g' l')
  with c t ex_built_three show ?thesis
    by blast
qed

text \<open>
  Claim C5: the objective of a constructed manager's problem has the value
  \<open>capacity * capex_capacity + power * capex_power\<close> under every assignment; it
  mentions no variable but \<open>capacity\<close> and \<open>power\<close>, and its constant is 0.
\<close>

theorem C5_objective:
  assumes built: "ScenarioManager_init inp = Inr sm"
  shows "\<exists>e. objective (lpmodel sm) = Some e \<and>
             (\<forall>a. expr_value a e =
                Some (a Var_capacity * capex_capacity (storage inp)
                      + a Var_power * capex_power (storage inp))) \<and>
             set (map fst (terms e)) \<subseteq> {Var_capacity, Var_power} \<and>
             const_term e = Some 0"
proof -
  let ?e = "expr_add (expr_mul (expr_var Var_capacity) (capex_capacity (storage inp)))
                     (expr_mul (expr_var Var_power) (capex_power (storage inp)))"
  have "objective (lpmodel sm) =
      objective (lpmodel (added (prepared inp) (all_entries (prepared inp))))"
    by (simp add: init_added [OF built, symmetric])
  then have obj: "objective (lpmodel sm) = Some ?e"
    by (simp add: added_simps prepared_objective)
  have val: "expr_value a ?e =
      Some (a Var_capacity * capex_capacity (storage inp)
            + a Var_power * capex_power (storage inp))" for a
    by (simp add: expr_value_add expr_value_mul_var)
  have keys: "set (map fst (terms ?e)) \<subseteq> {Var_capacity, Var_power}"
    using terms_mul_var(1) [of Var_capacity "capex_capacity (storage inp)"]
      terms_mul_var(1) [of Var_power "capex_power (storage inp)"]
    by (auto simp: keys_expr_add simp del: set_map)
  have const: "const_term ?e = Some 0"
    by (simp add: expr_add_def terms_mul_var(2))
  from obj val keys const show ?thesis by blast
qed

theorem C5_objective_witness:
  "ScenarioManager_init (ex_inputs [0, 1, 2]) = Inr (ex_manager [0, 1, 2]) \<and>
   (\<exists>e. objective (lpmodel (ex_manager [0, 1, 2])) = Some e \<and>
        (\<forall>a. expr_value a e = Some (a Var_capacity + a Var_power)) \<and>
        set (map fst (terms e)) \<subseteq> {Var_capacity, Var_power} \<and>
        const_term e = Some 0)"
proof -
  from C5_objective [OF ex_built_three] have
    "\<exists>e. objective (lpmodel (ex_manager [0, 1, 2])) = Some e \<and>
        (\<forall>a. expr_value a e = Some (a Var_capacity + a Var_power)) \<and>
        set (map fst (terms e)) \<subseteq> {Var_capacity, Var_power} \<and>
        const_term e = Some 0"
    by (simp only: ex_inputs_simps mult_1_right)
  with ex_built_three show ?thesis
    by blast
qed

subsection \<open>Solving and the flag\<close>

lemma init_fresh:
  assumes "ScenarioManager_init inp = Inr sm"
  shows "\<not> solved_status sm" and "status (lpmodel sm) = 0" and "inputs sm = inp"
proof -
  have sm: "sm = added (prepared inp) (all_entries (prepared inp))"
    by (rule init_added [OF assms])
  show "\<not> solved_status sm" and "status (lpmodel sm) = 0" and "inputs sm = inp"
    by (simp_all add: sm added_simps prepared_simps)
qed

text \<open>
  Claim C6: a constructed manager has the flag down, and after \<^verbatim>\<open>solve\<close> the flag is
  up exactly when the solver reported the optimal status, which is exactly when the
  status of the problem is the optimal one.
\<close>

theorem C6_solve_flag:
  assumes built: "ScenarioManager_init inp = Inr sm"
  shows "\<not> solved_status sm \<and>
         (solved_status (state_of (solve slv sm)) \<longleftrightarrow>
            (\<exists>vals. slv (lpmodel sm) = Inr (LpStatusOptimal, vals))) \<and>
         (solved_status (state_of (solve slv sm)) \<longleftrightarrow>
            status (lpmodel (state_of (solve slv sm))) = LpStatusOptimal)"
proof (cases "slv (lpmodel sm)")
  case (Inl e)
  then have "state_of (solve slv sm) = sm"
    by (simp add: solve_def LpProblem_solve_def bind_error_def)
  then show ?thesis
    using Inl init_fresh(1,2) [OF built] by (simp add: LpStatusOptimal_def)
next
  case (Inr r)
  obtain st vals where r: "r = (st, vals)"
    by (cases r)
  have "solved_status (state_of (solve slv sm)) \<longleftrightarrow> st = 1"
    and "status (lpmodel (state_of (solve slv sm))) = st"
    using Inr r init_fresh(1) [OF built]
    by (simp_all add: solve_def LpProblem_solve_def bind_error_def)
  then show ?thesis
    using Inr r init_fresh(1) [OF built] by (auto simp: LpStatusOptimal_def)
qed

theorem C6_solve_flag_witness:
  "ScenarioManager_init (ex_inputs [0, 1, 2]) = Inr (ex_manager [0, 1, 2]) \<and>
   \<not> solved_status (ex_manager [0, 1, 2]) \<and>
   solved_status (state_of (solve optimal_solver (ex_manager [0, 1, 2]))) \<and>
   \<not> solved_status (state_of (solve infeasible_solver (ex_manager [0, 1, 2])))"
  using C6_solve_flag [OF ex_built_three, of optimal_solver]
    C6_solve_flag [OF ex_built_three, of infeasible_solver] ex_built_three
  by (simp add: optimal_solver_def infeasible_solver_def LpStatusOptimal_def)

lemma flag_and_then:
  "(\<And>s. solved_status (state_of (f s)) = solved_status s) \<Longrightarrow>
     solved_status (state_of (and_then r f)) = solved_status (state_of r)"
  by (cases r) (simp_all add: and_then_def)

lemma flag_lpmodel_iadd:
  "solved_status (state_of (lpmodel_iadd c n self)) = solved_status self"
  by (simp add: lpmodel_iadd_def split: sum.splits)

lemma flag_storage_level_loop:
  "solved_status (state_of (storage_level_loop ts self)) = solved_status self"
  by (induction ts arbitrary: self) (simp_all add: flag_and_then flag_lpmodel_iadd)

lemma flag_limits_loop:
  "solved_status (state_of (limits_loop ts self)) = solved_status self"
  by (induction ts arbitrary: self) (simp_all add: flag_and_then flag_lpmodel_iadd)

lemma flag_define_constraints:
  "solved_status (state_of (define_constraints self)) = solved_status self"
  by (simp add: define_constraints_def flag_and_then flag_lpmodel_iadd
      flag_storage_level_loop flag_limits_loop)

lemma flag_solve:
  "solved_status self \<Longrightarrow> solved_status (state_of (solve slv self))"
  by (simp add: solve_def split: sum.splits)

lemma flag_call: "solved_status self \<Longrightarrow> solved_status (state_of (call m self))"
  by (cases m)
     (simp_all add: raising_def setup_linear_problem_def define_endogenous_variables_def
        define_objective_function_def flag_define_constraints flag_solve split: sum.splits)

lemma flag_calls: "solved_status self \<Longrightarrow> solved_status (calls ms self)"
  by (induction ms arbitrary: self) (simp_all add: flag_call)

text \<open>
  Claim C10: no call of a method takes the flag down, whether the call returns or
  raises; and once a \<^verbatim>\<open>solve\<close> has seen the optimal status, the flag is up after
  every further run of calls, whatever the solver reports in them.
\<close>

theorem C10_flag_monotone:
  "(solved_status self \<longrightarrow> solved_status (calls ms self)) \<and>
   (slv (lpmodel self) = Inr (LpStatusOptimal, vals) \<longrightarrow>
      solved_status (calls (Solve slv # ms) self))"
proof -
  have "solved_status (state_of (solve slv self))"
    if "slv (lpmodel self) = Inr (LpStatusOptimal, vals)"
    using that by (simp add: solve_def LpProblem_solve_def bind_error_def LpStatusOptimal_def)
  then show ?thesis
    by (simp add: flag_calls)
qed

theorem C10_flag_monotone_witness:
  "solved_status (state_of (solve optimal_solver (ex_manager [0]))) \<and>
   solved_status (calls [Solve infeasible_solver, Define_constraints, Verify_solve]
                    (state_of (solve optimal_solver (ex_manager [0])))) \<and>
   optimal_solver (lpmodel (ex_manager [0])) = Inr (LpStatusOptimal, (\<lambda>v. Some 0)) \<and>
   solved_status (calls [Solve optimal_solver, Solve infeasible_solver] (ex_manager [0])) \<and>
   status (lpmodel (calls [Solve optimal_solver, Solve infeasible_solver] (ex_manager [0]))) = - 1"
proof -
  have up: "solved_status (state_of (solve optimal_solver (ex_manager [0])))"
    by (simp add: solve_def LpProblem_solve_def bind_error_def optimal_solver_def)
  have opt: "optimal_solver (lpmodel (ex_manager [0])) = Inr (LpStatusOptimal, (\<lambda>v. Some 0))"
    by (simp add: optimal_solver_def LpStatusOptimal_def)
  have last: "status (lpmodel (calls [Solve optimal_solver, Solve infeasible_solver]
      (ex_manager [0]))) = - 1"
    by (simp add: solve_def LpProblem_solve_def bind_error_def optimal_solver_def
        infeasible_solver_def)
  from C10_flag_monotone [of "state_of (solve optimal_solver (ex_manager [0]))"
      "[Solve infeasible_solver, Define_constraints, Verify_solve]" optimal_solver "\<lambda>v. Some 0"]
    C10_flag_monotone [of "ex_manager [0]" "[Solve infeasible_solver]" optimal_solver "\<lambda>v. Some 0"]
    up opt last
  show ?thesis by blast
qed

subsection \<open>Reading the results of a model that is not solved\<close>

lemma verify_solve_iff:
  "(verify_solve self = Inl ModelHasNotSolved \<longleftrightarrow> status (lpmodel self) \<noteq> LpStatusOptimal) \<and>
   (verify_solve self = Inr () \<longleftrightarrow> status (lpmodel self) = LpStatusOptimal)"
  by (simp add: verify_solve_def LpStatusOptimal_def)

lemma get_design_results_iff:
  "isl (get_design_results scenario) \<longleftrightarrow> \<not> solved_status scenario"
  by (simp add: get_design_results_def)

lemma get_operational_batteryflow_results_returns:
  "\<not> isl (get_operational_batteryflow_results scenario)"
  by (simp add: get_operational_batteryflow_results_def)

text \<open>
  Claim C7 at an input on which the code departs from it: the example manager over
  the time index \<open>[0]\<close>, solved by a solver that reports the problem infeasible.
  \<^verbatim>\<open>verify_solve\<close> raises and \<^verbatim>\<open>get_design_results\<close> fails its assertion, but
  \<^verbatim>\<open>get_operational_batteryflow_results\<close> returns a table of missing values. After an
  optimal solve followed by an infeasible one, \<^verbatim>\<open>get_design_results\<close> returns as well.
\<close>

theorem C7_results_of_unsolved_model:
  "status (lpmodel (state_of (solve infeasible_solver (ex_manager [0])))) = - 1 \<and>
   verify_solve (state_of (solve infeasible_solver (ex_manager [0]))) = Inl ModelHasNotSolved \<and>
   get_design_results (state_of (solve infeasible_solver (ex_manager [0]))) = Inl AssertionError \<and>
   get_operational_batteryflow_results (state_of (solve infeasible_solver (ex_manager [0]))) =
     Inr [(0, [(''charge'', None), (''discharge'', None), (''storagelevel'', None)])] \<and>
   status (lpmodel (calls [Solve optimal_solver, Solve infeasible_solver] (ex_manager [0]))) = - 1 \<and>
   \<not> isl (get_design_results (calls [Solve optimal_solver, Solve infeasible_solver] (ex_manager [0])))"
proof -
  have "status (lpmodel (state_of (solve infeasible_solver (ex_manager [0])))) = - 1"
    by (simp add: solve_def LpProblem_solve_def bind_error_def infeasible_solver_def)
  moreover
  have "verify_solve (state_of (solve infeasible_solver (ex_manager [0]))) = Inl ModelHasNotSolved"
    by (simp add: verify_solve_def solve_def LpProblem_solve_def bind_error_def
        infeasible_solver_def)
  moreover
  have "get_design_results (state_of (solve infeasible_solver (ex_manager [0]))) =
      Inl AssertionError"
    using init_fresh(1) [OF ex_built_single]
    by (simp add: get_design_results_def solve_def LpProblem_solve_def bind_error_def
        infeasible_solver_def)
  moreover
  have "get_operational_batteryflow_results (state_of (solve infeasible_solver (ex_manager [0]))) =
     Inr [(0, [(''charge'', None), (''discharge'', None), (''storagelevel'', None)])]"
    by code_simp
  moreover
  have "status (lpmodel (calls [Solve optimal_solver, Solve infeasible_solver]
      (ex_manager [0]))) = - 1"
    by (simp add: solve_def LpProblem_solve_def bind_error_def optimal_solver_def
        infeasible_solver_def)
  moreover
  have "\<not> isl (get_design_results (calls [Solve optimal_solver, Solve infeasible_solver]
      (ex_manager [0])))"
    by (simp add: get_design_results_def solve_def LpProblem_solve_def bind_error_def
        optimal_solver_def infeasible_solver_def)
  ultimately show ?thesis
    by blast
qed

subsection \<open>Checking the inputs\<close>

lemma dropna_empty: "dropna s = [] \<longleftrightarrow> (\<forall>x \<in> set s. x = None)"
  by (induction s) (auto simp: dropna_def split: option.splits)

lemma mean_None_isna:
  assumes "s \<noteq> []" and "series_mean s = None"
  shows "series_isna_sum s \<noteq> 0"
proof -
  from assms(2) have "dropna s = []"
    by (simp add: series_mean_def split: if_splits)
  then have "filter (\<lambda>x. x = None) s = s"
    by (simp add: dropna_empty)
  with assms(1) show ?thesis
    by (simp add: series_isna_sum_def)
qed

lemma column_isna_le:
  "(n, c) \<in> set df \<Longrightarrow> series_isna_sum c \<le> df_isna_sum_sum df"
  by (induction df) (auto simp: df_isna_sum_sum_def)

lemma series_getitem_nonempty: "series_getitem s t = Inr x \<Longrightarrow> s \<noteq> []"
  by (auto simp: series_getitem_def split: if_splits)

lemma init_tables:
  assumes built: "ScenarioManager_init inp = Inr sm"
  shows "\<exists>total. df_getitem (generation (renewables inp)) ''Total'' = Inr total \<and>
           total \<noteq> [] \<and> Load.load (ScenarioInputs.load inp) \<noteq> []"
proof -
  have "\<not> isl (start_of_year_constraint (prepared inp))"
    by (rule init_builders(1) [OF built])
  then obtain c where "start_of_year_constraint (prepared inp) = Inr c"
    by (cases "start_of_year_constraint (prepared inp)") simp_all
  then have t: "0 \<in> set (time_index inp)"
    using start_of_year_prepared by blast
  have "\<not> isl (load_constraint (prepared inp) 0)"
    by (rule init_builders(3) [OF built t])
  then obtain c' where "load_constraint (prepared inp) 0 = Inr c'"
    by (cases "load_constraint (prepared inp) 0") simp_all
  then show ?thesis
    using load_prepared series_getitem_nonempty by blast
qed

text \<open>
  Claim C8: on a constructed manager \<^verbatim>\<open>verify_inputs\<close> raises an AssertionError when
  the mean of the load is at least the mean of the Total column of the generation, or
  the generation table has a missing value, or the load has one; otherwise it
  returns. It takes no solver and changes nothing.
\<close>

theorem C8_verify_inputs:
  assumes built: "ScenarioManager_init inp = Inr sm"
  shows "\<exists>total. df_getitem (generation (renewables inp)) ''Total'' = Inr total \<and>
           verify_inputs sm =
             (if fge (series_mean (Load.load (ScenarioInputs.load inp))) (series_mean total) \<or>
                 df_isna_sum_sum (generation (renewables inp)) \<noteq> 0 \<or>
                 series_isna_sum (Load.load (ScenarioInputs.load inp)) \<noteq> 0
              then Inl AssertionError else Inr ())"
proof -
  let ?load = "Load.load (ScenarioInputs.load inp)"
  let ?gen = "generation (renewables inp)"
  from init_tables [OF built] obtain total where
    total: "df_getitem ?gen ''Total'' = Inr total"
    and total_ne: "total \<noteq> []" and load_ne: "?load \<noteq> []"
    by blast
  from total have "(''Total'', total) \<in> set ?gen"
    by (auto simp: df_getitem_def split: option.splits dest: map_of_SomeD)
  then have le: "series_isna_sum total \<le> df_isna_sum_sum ?gen"
    by (rule column_isna_le)
  have gen_na: "df_isna_sum_sum ?gen \<noteq> 0" if "series_mean total = None"
    using mean_None_isna [OF total_ne that] le by simp
  have load_na: "series_isna_sum ?load \<noteq> 0" if "series_mean ?load = None"
    by (rule mean_None_isna [OF load_ne that])
  have "verify_inputs sm =
      (if fge (series_mean ?load) (series_mean total) \<or> df_isna_sum_sum ?gen \<noteq> 0 \<or>
          series_isna_sum ?load \<noteq> 0
       then Inl AssertionError else Inr ())"
  proof (cases "series_mean ?load")
    case None
    with load_na show ?thesis
      by (simp add: verify_inputs_def init_fresh(3) [OF built] total bind_error_def)
  next
    case load_mean: (Some x)
    show ?thesis
    proof (cases "series_mean total")
      case None
      with gen_na show ?thesis
        by (simp add: verify_inputs_def init_fresh(3) [OF built] total bind_error_def)
    next
      case (Some y)
      with load_mean show ?thesis
        by (simp add: verify_inputs_def init_fresh(3) [OF built] total bind_error_def not_less)
    qed
  qed
  with total show ?thesis
    by blast
qed

theorem C8_verify_inputs_witness:
  "ScenarioManager_init (ex_inputs [0, 1, 2]) = Inr (ex_manager [0, 1, 2]) \<and>
   df_getitem (generation (renewables (ex_inputs [0, 1, 2]))) ''Total'' =
     Inr [Some 100, Some 100, Some 100] \<and>
   series_mean (Load.load (ScenarioInputs.load (ex_inputs [0, 1, 2]))) = Some 25 \<and>
   series_mean [Some 100, Some 100, Some 100] = Some 100 \<and>
   verify_inputs (ex_manager [0, 1, 2]) = Inr ()"
proof -
  have total: "df_getitem (generation (renewables (ex_inputs [0, 1, 2]))) ''Total'' =
      Inr [Some 100, Some 100, Some 100]"
    by (simp add: ex_inputs_simps df_getitem_def)
  have load_mean: "series_mean (Load.load (ScenarioInputs.load (ex_inputs [0, 1, 2]))) = Some 25"
    by (simp add: ex_inputs_simps series_mean_def dropna_def)
  have total_mean: "series_mean [Some 100, Some 100, Some 100] = Some 100"
    by (simp add: series_mean_def dropna_def)
  have gen_na: "df_isna_sum_sum (generation (renewables (ex_inputs [0, 1, 2]))) = 0"
    by (simp add: ex_inputs_simps df_isna_sum_sum_def series_isna_sum_def)
  have load_na: "series_isna_sum (Load.load (ScenarioInputs.load (ex_inputs [0, 1, 2]))) = 0"
    by (simp add: ex_inputs_simps series_isna_sum_def)
  from C8_verify_inputs [OF ex_built_three] have "verify_inputs (ex_manager [0, 1, 2]) = Inr ()"
    by (simp add: total load_mean total_mean gen_na load_na)
  with ex_built_three total load_mean total_mean show ?thesis
    by blast
qed

subsection \<open>The generation table\<close>

lemma df_setitem_new: "n \<notin> set (map fst df) \<Longrightarrow> df_setitem n s df = df @ [(n, s)]"
  by (induction df) auto

lemma df_getitem_column:
  "n \<in> set (map fst df) \<Longrightarrow> df_getitem df n = Inr (projr (df_getitem df n))"
proof -
  assume "n \<in> set (map fst df)"
  then have "map_of df n \<noteq> None"
    by (simp add: map_of_eq_None_iff)
  then show ?thesis
    by (auto simp: df_getitem_def)
qed

lemma generation_loop_columns:
  assumes "distinct (map fst cs)"
    and "set (map fst cs) \<inter> set (map fst acc) = {}"
    and "set (map fst cs) \<subseteq> set (map fst ps)"
  shows "generation_loop cs ps acc =
     Inr (acc @ map (\<lambda>nc. (fst nc, series_mul (projr (df_getitem ps (fst nc))) (snd nc))) cs)"
  using assms
proof (induction cs arbitrary: acc)
  case Nil
  show ?case by simp
next
  case (Cons nc cs)
  obtain n c where nc: "nc = (n, c)"
    by (cases nc)
  have "df_getitem ps n = Inr (projr (df_getitem ps n))"
    using Cons.prems(3) nc by (intro df_getitem_column) simp
  then obtain column where col: "df_getitem ps n = Inr column"
    by blast
  have new: "n \<notin> set (map fst acc)"
    using Cons.prems(2) nc by auto
  have step: "df_setitem n (series_mul column c) acc = acc @ [(n, series_mul column c)]"
    by (rule df_setitem_new [OF new])
  have "generation_loop cs ps (acc @ [(n, series_mul column c)]) =
      Inr ((acc @ [(n, series_mul column c)]) @
        map (\<lambda>nc. (fst nc, series_mul (projr (df_getitem ps (fst nc))) (snd nc))) cs)"
    using Cons.prems nc by (intro Cons.IH) auto
  then show ?case
    by (simp add: nc step col)
qed

lemma row_sum_no_missing:
  assumes "\<forall>col \<in> set df. cell_at (snd col) i \<noteq> None"
  shows "row_sum df i = Some (sum_list (map (\<lambda>col. the (cell_at (snd col) i)) df))"
proof -
  have "map (\<lambda>col. nan_to_zero (cell_at (snd col) i)) df =
      map (\<lambda>col. the (cell_at (snd col) i)) df"
    using assms by (intro map_cong refl) (auto simp: nan_to_zero_def)
  then show ?thesis
    by (simp only: row_sum_def)
qed

text \<open>
  Claim C9, as the code has it. The two assertions fail when the names are not the
  keys of the capacities or \<open>Total\<close> is a name. Otherwise, when the profile table has a
  column for every name, the result has one column per technology, in the order of the
  capacities, each the profile column times the capacity, and a last column \<open>Total\<close>
  with the sum of every row over them.
\<close>

theorem C9_calculate_generation:
  "(set ns \<noteq> set (map fst cs) \<or> ''Total'' \<in> set ns \<longrightarrow>
      calculate_generation ns cs ps = Inl AssertionError) \<and>
   (set ns = set (map fst cs) \<and> ''Total'' \<notin> set ns \<and> distinct (map fst cs) \<and>
    set ns \<subseteq> set (map fst ps) \<longrightarrow>
      calculate_generation ns cs ps =
        Inr (map (\<lambda>nc. (fst nc, series_mul (projr (df_getitem ps (fst nc))) (snd nc))) cs @
             [(''Total'',
               df_sum_axis1
                 (map (\<lambda>nc. (fst nc, series_mul (projr (df_getitem ps (fst nc))) (snd nc))) cs))]))"
proof (intro conjI impI)
  assume "set ns \<noteq> set (map fst cs) \<or> ''Total'' \<in> set ns"
  then show "calculate_generation ns cs ps = Inl AssertionError"
    by (auto simp: calculate_generation_def)
next
  let ?tech = "map (\<lambda>nc. (fst nc, series_mul (projr (df_getitem ps (fst nc))) (snd nc))) cs"
  assume ok: "set ns = set (map fst cs) \<and> ''Total'' \<notin> set ns \<and> distinct (map fst cs) \<and>
    set ns \<subseteq> set (map fst ps)"
  then have "generation_loop cs ps [] = Inr ([] @ ?tech)"
    by (intro generation_loop_columns) auto
  moreover have "map fst ?tech = map fst cs"
    by (simp add: comp_def)
  then have "''Total'' \<notin> set (map fst ?tech)"
    using ok by auto
  then have "df_setitem ''Total'' (df_sum_axis1 ?tech) ?tech =
      ?tech @ [(''Total'', df_sum_axis1 ?tech)]"
    by (rule df_setitem_new)
  ultimately show "calculate_generation ns cs ps = Inr (?tech @ [(''Total'', df_sum_axis1 ?tech)])"
    using ok by (auto simp: calculate_generation_def bind_error_def)
qed

theorem C9_calculate_generation_witness:
  "calculate_generation [''Solar'', ''Total''] [(''Solar'', 100)] ex_profiles = Inl AssertionError \<and>
   calculate_generation [''Solar''] [(''Solar'', 100)] ex_profiles =
     Inr [(''Solar'', [Some 100, Some 100, Some 100]),
          (''Total'', [Some 100, Some 100, Some 100])]"
proof -
  have "calculate_generation [''Solar'', ''Total''] [(''Solar'', 100)] ex_profiles =
      Inl AssertionError"
    using C9_calculate_generation [of "[''Solar'', ''Total'']" "[(''Solar'', 100)]" ex_profiles]
    by simp
  moreover
  have "calculate_generation [''Solar''] [(''Solar'', 100)] ex_profiles =
     Inr [(''Solar'', [Some 100, Some 100, Some 100]),
          (''Total'', [Some 100, Some 100, Some 100])]"
    using C9_calculate_generation [of "[''Solar'']" "[(''Solar'', 100)]" ex_profiles]
    by (simp add: ex_profiles_def df_getitem_def series_mul_def df_sum_axis1_def nrows_def
        row_sum_def cell_at_def nan_to_zero_def upt_rec)
  ultimately show ?thesis
    by blast
qed

text \<open>
  Claim C9 as it is stated fails on a profile table that lacks the column of a name:
  the names are the keys and \<open>Total\<close> is none of them, yet no table is returned.
\<close>

theorem C9_missing_column_counterexample:
  "set [''Solar''] = set (map fst [(''Solar'', 100 :: real)]) \<and>
   ''Total'' \<notin> set [''Solar''] \<and>
   calculate_generation [''Solar''] [(''Solar'', 100)] [] = Inl KeyError"
  by (simp add: calculate_generation_def bind_error_def df_getitem_def)

subsection \<open>The constructor returns on a time index \<open>0, ..., N - 1\<close>\<close>

lemma and_then_Return_simp: "and_then (Return s) f = f s"
  by (simp add: and_then_def)

lemma lbl_neq_limits:
  "lbl_charge \<noteq> lbl_discharge" "lbl_charge \<noteq> lbl_level" "lbl_charge \<noteq> lbl_load"
  "lbl_discharge \<noteq> lbl_level" "lbl_discharge \<noteq> lbl_load" "lbl_level \<noteq> lbl_load"
  "lbl_available \<noteq> lbl_charge" "lbl_available \<noteq> lbl_discharge"
  "lbl_available \<noteq> lbl_level" "lbl_available \<noteq> lbl_load"
  by (simp_all add: lbl_available_def lbl_charge_def lbl_discharge_def lbl_level_def lbl_load_def)

lemma lpmodel_iadd_returns:
  assumes "c self = Inr c'" and "n \<notin> set (map fst (constraints (lpmodel self)))"
  shows "lpmodel_iadd c n self = Return (added self [(n, c')])"
  using assms by (simp add: lpmodel_iadd_Return)

lemma keys_storage_level_entries:
  "set (map fst (concat (map (storage_level_entries self) ts))) =
     (\<lambda>t. (lbl_storage_level, Some t)) ` set ts \<union> (\<lambda>t. (lbl_available, Some t)) ` set ts"
  by (induction ts) (auto simp: storage_level_entries_def)

lemma storage_level_loop_returns:
  assumes "\<forall>t \<in> set ts. \<not> isl (storage_level_constraint self t) \<and>
                          \<not> isl (available_energy_constraint self t)"
    and "distinct ts"
    and "\<forall>t \<in> set ts. (lbl_storage_level, Some t) \<notin> set (map fst (constraints (lpmodel self))) \<and>
                        (lbl_available, Some t) \<notin> set (map fst (constraints (lpmodel self)))"
  shows "storage_level_loop ts self =
           Return (added self (concat (map (storage_level_entries self) ts)))"
  using assms
proof (induction ts arbitrary: self)
  case Nil
  show ?case by (simp add: added_Nil)
next
  case (Cons t ts)
  let ?c1 = "projr (storage_level_constraint self t)"
  let ?c2 = "projr (available_energy_constraint self t)"
  let ?s1 = "added self [((lbl_storage_level, Some t), ?c1)]"
  let ?s2 = "added self (storage_level_entries self t)"
  have c1: "storage_level_constraint self t = Inr ?c1"
    using Cons.prems(1) by (cases "storage_level_constraint self t") simp_all
  have c2: "available_energy_constraint self t = Inr ?c2"
    using Cons.prems(1) by (cases "available_energy_constraint self t") simp_all
  have s1: "lpmodel_iadd (\<lambda>s. storage_level_constraint s t) (lbl_storage_level, Some t) self =
      Return ?s1"
    using c1 Cons.prems(3) by (intro lpmodel_iadd_returns) simp_all
  have "lpmodel_iadd (\<lambda>s. available_energy_constraint s t) (lbl_available, Some t) ?s1 =
      Return (added ?s1 [((lbl_available, Some t), ?c2)])"
    using c2 Cons.prems(3) lbl_neq(4)
    by (intro lpmodel_iadd_returns) (auto simp: builders_added added_simps)
  then have s2: "lpmodel_iadd (\<lambda>s. available_energy_constraint s t) (lbl_available, Some t) ?s1 =
      Return ?s2"
    by (simp add: added_added storage_level_entries_def)
  have same: "storage_level_entries ?s2 = storage_level_entries self"
    by (rule ext) (simp add: storage_level_entries_def builders_added)
  have "storage_level_loop ts ?s2 =
      Return (added ?s2 (concat (map (storage_level_entries ?s2) ts)))"
  proof (rule Cons.IH)
    show "\<forall>t \<in> set ts. \<not> isl (storage_level_constraint ?s2 t) \<and>
                          \<not> isl (available_energy_constraint ?s2 t)"
      using Cons.prems(1) by (simp add: builders_added)
    show "distinct ts"
      using Cons.prems(2) by simp
    show "\<forall>u \<in> set ts. (lbl_storage_level, Some u) \<notin> set (map fst (constraints (lpmodel ?s2))) \<and>
                        (lbl_available, Some u) \<notin> set (map fst (constraints (lpmodel ?s2)))"
      using Cons.prems(2,3) by (auto simp: added_simps storage_level_entries_def)
  qed
  then have "storage_level_loop ts ?s2 =
      Return (added self (concat (map (storage_level_entries self) (t # ts))))"
    by (simp add: same added_added)
  then show ?case
    by (simp add: s1 s2 and_then_Return_simp)
qed

lemma limits_loop_returns:
  assumes "\<forall>t \<in> set ts. \<not> isl (charge_constraint self t) \<and> \<not> isl (discharge_constraint self t) \<and>
                          \<not> isl (level_constraint self t) \<and> \<not> isl (load_constraint self t)"
    and "distinct ts"
    and "\<forall>t \<in> set ts. \<forall>l \<in> {lbl_charge, lbl_discharge, lbl_level, lbl_load}.
            (l, Some t) \<notin> set (map fst (constraints (lpmodel self)))"
  shows "limits_loop ts self = Return (added self (concat (map (limits_entries self) ts)))"
  using assms
proof (induction ts arbitrary: self)
  case Nil
  show ?case by (simp add: added_Nil)
next
  case (Cons t ts)
  let ?c1 = "projr (charge_constraint self t)"
  let ?c2 = "projr (discharge_constraint self t)"
  let ?c3 = "projr (level_constraint self t)"
  let ?c4 = "projr (load_constraint self t)"
  let ?s1 = "added self [((lbl_charge, Some t), ?c1)]"
  let ?s2 = "added self [((lbl_charge, Some t), ?c1), ((lbl_discharge, Some t), ?c2)]"
  let ?s3 = "added self [((lbl_charge, Some t), ?c1), ((lbl_discharge, Some t), ?c2),
      ((lbl_level, Some t), ?c3)]"
  let ?s4 = "added self (limits_entries self t)"
  have c1: "charge_constraint self t = Inr ?c1"
    using Cons.prems(1) by (cases "charge_constraint self t") simp_all
  have c2: "discharge_constraint self t = Inr ?c2"
    using Cons.prems(1) by (cases "discharge_constraint self t") simp_all
  have c3: "level_constraint self t = Inr ?c3"
    using Cons.prems(1) by (cases "level_constraint self t") simp_all
  have c4: "load_constraint self t = Inr ?c4"
    using Cons.prems(1) by (cases "load_constraint self t") simp_all
  have s1: "lpmodel_iadd (\<lambda>s. charge_constraint s t) (lbl_charge, Some t) self = Return ?s1"
    using c1 Cons.prems(3) by (intro lpmodel_iadd_returns) simp_all
  have "lpmodel_iadd (\<lambda>s. discharge_constraint s t) (lbl_discharge, Some t) ?s1 =
      Return (added ?s1 [((lbl_discharge, Some t), ?c2)])"
    using c2 Cons.prems(3) lbl_neq_limits
    by (intro lpmodel_iadd_returns) (auto simp: builders_added added_simps)
  then have s2: "lpmodel_iadd (\<lambda>s. discharge_constraint s t) (lbl_discharge, Some t) ?s1 =
      Return ?s2"
    by (simp add: added_added)
  have "lpmodel_iadd (\<lambda>s. level_constraint s t) (lbl_level, Some t) ?s2 =
      Return (added ?s2 [((lbl_level, Some t), ?c3)])"
    using c3 Cons.prems(3) lbl_neq_limits
    by (intro lpmodel_iadd_returns) (auto simp: builders_added added_simps)
  then have s3: "lpmodel_iadd (\<lambda>s. level_constraint s t) (lbl_level, Some t) ?s2 = Return ?s3"
    by (simp add: added_added)
  have "lpmodel_iadd (\<lambda>s. load_constraint s t) (lbl_load, Some t) ?s3 =
      Return (added ?s3 [((lbl_load, Some t), ?c4)])"
    using c4 Cons.prems(3) lbl_neq_limits
    by (intro lpmodel_iadd_returns) (auto simp: builders_added added_simps)
  then have s4: "lpmodel_iadd (\<lambda>s. load_constraint s t) (lbl_load, Some t) ?s3 = Return ?s4"
    by (simp add: added_added limits_entries_def)
  have same: "limits_entries ?s4 = limits_entries self"
    by (rule ext) (simp add: limits_entries_def builders_added)
  have "limits_loop ts ?s4 = Return (added ?s4 (concat (map (limits_entries ?s4) ts)))"
  proof (rule Cons.IH)
    show "\<forall>t \<in> set ts. \<not> isl (charge_constraint ?s4 t) \<and> \<not> isl (discharge_constraint ?s4 t) \<and>
                          \<not> isl (level_constraint ?s4 t) \<and> \<not> isl (load_constraint ?s4 t)"
      using Cons.prems(1) by (simp add: builders_added)
    show "distinct ts"
      using Cons.prems(2) by simp
    show "\<forall>u \<in> set ts. \<forall>l \<in> {lbl_charge, lbl_discharge, lbl_level, lbl_load}.
            (l, Some u) \<notin> set (map fst (constraints (lpmodel ?s4)))"
      using Cons.prems(2,3) by (auto simp: added_simps limits_entries_def)
  qed
  then have "limits_loop ts ?s4 =
      Return (added self (concat (map (limits_entries self) (t # ts))))"
    by (simp add: same added_added)
  then show ?case
    by (simp add: s1 s2 s3 s4 and_then_Return_simp)
qed

lemma builders_prepared:
  "time_index inp \<noteq> [] \<Longrightarrow> 0 \<in> set (time_index inp) \<Longrightarrow>
     \<not> isl (start_of_year_constraint (prepared inp))"
  "t \<in> set (time_index inp) \<Longrightarrow> t + 1 \<in> set (time_index inp) \<Longrightarrow>
     \<not> isl (storage_level_constraint (prepared inp) t)"
  "t \<in> set (time_index inp) \<Longrightarrow> \<not> isl (available_energy_constraint (prepared inp) t)"
  "t \<in> set (time_index inp) \<Longrightarrow> \<not> isl (charge_constraint (prepared inp) t)"
  "t \<in> set (time_index inp) \<Longrightarrow> \<not> isl (discharge_constraint (prepared inp) t)"
  "t \<in> set (time_index inp) \<Longrightarrow> \<not> isl (level_constraint (prepared inp) t)"
proof -
  show "\<not> isl (start_of_year_constraint (prepared inp))"
    if "time_index inp \<noteq> []" and "0 \<in> set (time_index inp)"
  proof -
    from that(1) obtain x xs where ti: "time_index inp = x # xs"
      by (cases "time_index inp") simp_all
    then have m: "py_max (time_index inp) = Inr (fold max xs x)"
      by simp
    from py_max_Inr [OF m] have "fold max xs x \<in> set (time_index inp)"
      by blast
    with that(2) m show ?thesis
      by (simp add: start_of_year_constraint_def bind_error_def prepared_simps
          LpVariable_dicts_getitem)
  qed
qed (simp_all add: storage_level_constraint_def available_energy_constraint_def
    charge_constraint_def discharge_constraint_def level_constraint_def bind_error_def
    prepared_simps LpVariable_dicts_getitem)

lemma load_constraint_prepared:
  assumes "df_getitem (generation (renewables inp)) ''Total'' = Inr tot"
    and "t \<in> set (time_index inp)" and "0 \<le> t"
    and "t < int (length tot)" and "t < int (length (Load.load (ScenarioInputs.load inp)))"
  shows "\<not> isl (load_constraint (prepared inp) t)"
  using assms
  by (simp add: load_constraint_def bind_error_def prepared_simps LpVariable_dicts_getitem
      series_getitem_def)

lemma entries_added:
  "storage_level_entries (added self cs) = storage_level_entries self"
  "limits_entries (added self cs) = limits_entries self"
  by (rule ext, simp add: storage_level_entries_def limits_entries_def builders_added)+

lemma define_constraints_returns:
  assumes ti: "distinct (time_index inp)" "time_index inp \<noteq> []" "0 \<in> set (time_index inp)"
    and succ: "\<forall>t \<in> set (butlast (time_index inp)). t + 1 \<in> set (time_index inp)"
    and loads: "\<forall>t \<in> set (time_index inp). \<not> isl (load_constraint (prepared inp) t)"
  shows "define_constraints (prepared inp) =
           Return (added (prepared inp) (all_entries (prepared inp)))"
proof -
  let ?p = "prepared inp"
  let ?c1 = "projr (duration_constraint ?p)"
  let ?c2 = "projr (start_of_year_constraint ?p)"
  let ?s1 = "added ?p [((lbl_duration, None), ?c1)]"
  let ?s2 = "added ?p [((lbl_duration, None), ?c1), ((lbl_start, None), ?c2)]"
  let ?s3 = "added ?s2 (concat (map (storage_level_entries ?s2) (butlast (time_index inp))))"
  have c1: "duration_constraint ?p = Inr ?c1"
    by (simp add: duration_constraint_def)
  have c2: "start_of_year_constraint ?p = Inr ?c2"
    using builders_prepared(1) [OF ti(2,3)]
    by (cases "start_of_year_constraint ?p") simp_all
  have s1: "lpmodel_iadd duration_constraint (lbl_duration, None) ?p = Return ?s1"
    using c1 by (intro lpmodel_iadd_returns) (simp_all add: prepared_simps)
  have "lpmodel_iadd start_of_year_constraint (lbl_start, None) ?s1 =
      Return (added ?s1 [((lbl_start, None), ?c2)])"
    using c2 lbl_neq(1)
    by (intro lpmodel_iadd_returns) (auto simp: builders_added added_simps prepared_simps)
  then have s2: "lpmodel_iadd start_of_year_constraint (lbl_start, None) ?s1 = Return ?s2"
    by (simp add: added_added)
  have in_butlast: "t \<in> set (time_index inp)" if "t \<in> set (butlast (time_index inp))" for t
    using that by (rule in_set_butlastD)
  have s3: "storage_level_loop (butlast (time_index inp)) ?s2 = Return ?s3"
  proof (rule storage_level_loop_returns)
    show "\<forall>t \<in> set (butlast (time_index inp)).
        \<not> isl (storage_level_constraint ?s2 t) \<and> \<not> isl (available_energy_constraint ?s2 t)"
      using succ in_butlast by (simp add: builders_added builders_prepared)
    show "distinct (butlast (time_index inp))"
      using ti(1) by (rule distinct_butlast)
    show "\<forall>t \<in> set (butlast (time_index inp)).
        (lbl_storage_level, Some t) \<notin> set (map fst (constraints (lpmodel ?s2))) \<and>
        (lbl_available, Some t) \<notin> set (map fst (constraints (lpmodel ?s2)))"
      by (simp add: added_simps prepared_simps)
  qed
  have keys3: "set (map fst (constraints (lpmodel ?s3))) =
      {(lbl_duration, None), (lbl_start, None)} \<union>
      ((\<lambda>t. (lbl_storage_level, Some t)) ` set (butlast (time_index inp)) \<union>
       (\<lambda>t. (lbl_available, Some t)) ` set (butlast (time_index inp)))"
    using keys_storage_level_entries [of ?s2 "butlast (time_index inp)"]
    by (simp add: added_simps prepared_simps del: set_map set_concat)
  have s4: "limits_loop (time_index inp) ?s3 =
      Return (added ?s3 (concat (map (limits_entries ?s3) (time_index inp))))"
  proof (rule limits_loop_returns)
    show "\<forall>t \<in> set (time_index inp).
        \<not> isl (charge_constraint ?s3 t) \<and> \<not> isl (discharge_constraint ?s3 t) \<and>
        \<not> isl (level_constraint ?s3 t) \<and> \<not> isl (load_constraint ?s3 t)"
      using loads by (simp add: builders_added builders_prepared)
    show "distinct (time_index inp)"
      by (rule ti(1))
    show "\<forall>t \<in> set (time_index inp). \<forall>l \<in> {lbl_charge, lbl_discharge, lbl_level, lbl_load}.
        (l, Some t) \<notin> set (map fst (constraints (lpmodel ?s3)))"
      unfolding keys3 using lbl_neq lbl_neq_limits by auto
  qed
  have "added ?s3 (concat (map (limits_entries ?s3) (time_index inp))) =
      added ?p (all_entries ?p)"
    by (simp add: entries_added added_added all_entries_def prepared_simps)
  with s4 have s4': "limits_loop (time_index inp) ?s3 = Return (added ?p (all_entries ?p))"
    by simp
  show ?thesis
    by (simp add: define_constraints_def s1 s2 s3 s4' and_then_Return_simp added_simps
        prepared_simps)
qed

text \<open>
  The constructor returns on every scenario whose time index is \<open>0, 1, ..., N - 1\<close> for
  some \<open>N \<ge> 1\<close> and whose generation table has a Total column, when that column and
  the load series have at least \<open>N\<close> rows. So the properties of constructed managers
  above speak of every such scenario.
\<close>

lemma init_returns:
  assumes ti: "time_index inp = map int [0..<N]" and N: "0 < N"
    and total: "df_getitem (generation (renewables inp)) ''Total'' = Inr tot"
    and rows: "N \<le> length tot" "N \<le> length (Load.load (ScenarioInputs.load inp))"
  shows "ScenarioManager_init inp = Inr (added (prepared inp) (all_entries (prepared inp)))"
proof -
  have mem: "t \<in> set (time_index inp) \<longleftrightarrow> 0 \<le> t \<and> t < int N" for t
  proof
    assume "t \<in> set (time_index inp)"
    then obtain n where "n < N" and "t = int n"
      by (auto simp: ti)
    then show "0 \<le> t \<and> t < int N"
      by simp
  next
    assume t: "0 \<le> t \<and> t < int N"
    then have "nat t \<in> {0..<N}"
      by (simp add: nat_less_iff)
    then have "int (nat t) \<in> int ` {0..<N}"
      by (rule imageI)
    with t show "t \<in> set (time_index inp)"
      by (simp add: ti)
  qed
  have distinct: "distinct (time_index inp)"
    by (simp add: ti distinct_map inj_on_def)
  have nonempty: "time_index inp \<noteq> []"
    using N by (simp add: ti)
  have zero: "0 \<in> set (time_index inp)"
    using N by (simp add: mem)
  have "butlast (time_index inp) = map int [0..<N - 1]"
    using N by (cases N) (simp_all add: ti map_butlast [symmetric])
  then have succ: "\<forall>t \<in> set (butlast (time_index inp)). t + 1 \<in> set (time_index inp)"
    using N by (auto simp: mem)
  have loads: "\<forall>t \<in> set (time_index inp). \<not> isl (load_constraint (prepared inp) t)"
  proof
    fix t
    assume t: "t \<in> set (time_index inp)"
    then have "0 \<le> t" and "t < int N"
      by (simp_all add: mem)
    with rows have "t < int (length tot)"
      and "t < int (length (Load.load (ScenarioInputs.load inp)))"
      by simp_all
    with t \<open>0 \<le> t\<close> show "\<not> isl (load_constraint (prepared inp) t)"
      by (intro load_constraint_prepared [OF total])
  qed
  show ?thesis
    using define_constraints_returns [OF distinct nonempty zero succ loads]
    by (simp add: init_Inr)
qed

text \<open>The renewables of the examples are what the constructor of \<^verbatim>\<open>Renewables\<close> makes.\<close>

lemma ex_renewables_init:
  "Renewables_init [''Solar''] [(''Solar'', 100)] ex_profiles = Inr ex_renewables"
  by (simp add: Renewables_init_def calculate_generation_def bind_error_def ex_profiles_def
      ex_renewables_def df_getitem_def series_mul_def df_sum_axis1_def nrows_def row_sum_def
      cell_at_def nan_to_zero_def upt_rec)

end
